theory Spec2Isabelle
  imports
    Complex_Main
    "HOL-Library.Word"
    "HOL-Library.AList"
    "HOL-Library.Char_ord"
    "HOL-Library.List_Lexorder"
begin

section \<open>The image averager of average_image_stack.py\<close>

text \<open>
  The script has one function, \<open>compute_average_image(input_folder, output_path)\<close>. It
  lists a folder, keeps the names with an image extension, decodes each file with PIL,
  sums the RGB samples in a float64 numpy array, divides by the number of images that
  were added, and saves the result.

  The embedding follows the function line by line. What the function calls outside the
  script is modelled as follows.
  \<^item> The file system is a current directory and an association list from absolute paths
    (lists of components) to nodes; its order is the order in which \<open>os.listdir\<close>
    returns the entries. Permissions and symbolic links are not modelled.
  \<^item> The image library is a parameter, the record \<open>codec\<close>: how bytes decode to an RGB
    raster, how a raster is resampled, how a raster is encoded. Nothing is assumed
    about these three functions.
  \<^item> A numpy array is its shape and a function from index triples (row, column,
    channel) to elements; only indices inside the shape are meaningful.
  \<^item> A float64 is modelled as a real number and float64 arithmetic as exact. The array
    holds sums of 8-bit samples: float64 represents every integer below \<open>2 ^ 53\<close>, so
    the sums are exact as long as fewer than about \<open>3.5 * 10 ^ 13\<close> images are added,
    and the rounding of the one division cannot move a quotient of such integers
    across an integer. Beyond that range the model is an idealisation.
  \<^item> Wall-clock time is not modelled; the console is the list of printed lines, each
    line abstracted to a constructor with the values it shows.
\<close>

subsection \<open>Strings and paths\<close>

definition lower_char :: "char \<Rightarrow> char" where
  "lower_char c =
     (case map_of (zip ''ABCDEFGHIJKLMNOPQRSTUVWXYZ'' ''abcdefghijklmnopqrstuvwxyz'') c of
        None \<Rightarrow> c
      | Some l \<Rightarrow> l)"

text \<open>\<open>str.lower\<close>, on the ASCII letters (no other character lowers to an ASCII letter
  of the five extensions).\<close>

definition lower :: "string \<Rightarrow> string" where
  "lower s = map lower_char s"

definition endswith :: "string \<Rightarrow> string \<Rightarrow> bool" where
  "endswith s suf = (length suf \<le> length s \<and> drop (length s - length suf) s = suf)"

text \<open>\<open>str.endswith\<close> with a tuple of suffixes.\<close>

definition endswith_any :: "string \<Rightarrow> string list \<Rightarrow> bool" where
  "endswith_any s sufs = list_ex (endswith s) sufs"

definition valid_extensions :: "string list" where
  "valid_extensions = [''.png'', ''.jpg'', ''.jpeg'', ''.tiff'', ''.bmp'']"

text \<open>\<open>p.rfind('/') + 1\<close>: the index just after the last separator, 0 without one.\<close>

definition after_last_sep :: "string \<Rightarrow> nat" where
  "after_last_sep p = length p - length (takeWhile (\<lambda>c. c \<noteq> CHR ''/'') (rev p))"

definition rstrip_sep :: "string \<Rightarrow> string" where
  "rstrip_sep s = rev (dropWhile (\<lambda>c. c = CHR ''/'') (rev s))"

text \<open>\<open>os.path.dirname\<close> (posixpath).\<close>

definition os_path_dirname :: "string \<Rightarrow> string" where
  "os_path_dirname p =
     (let head = take (after_last_sep p) p
      in if head \<noteq> [] \<and> head \<noteq> replicate (length head) (CHR ''/'')
         then rstrip_sep head else head)"

text \<open>\<open>os.path.splitext(p)[1]\<close>: the extension starts at the last dot of the last
  component, unless only dots come before it there.\<close>

definition os_path_splitext_ext :: "string \<Rightarrow> string" where
  "os_path_splitext_ext p =
     (let base = drop (after_last_sep p) p;
          tail = takeWhile (\<lambda>c. c \<noteq> CHR ''.'') (rev base);
          dot = length base - length tail - 1
      in if CHR ''.'' \<in> set base \<and> list_ex (\<lambda>c. c \<noteq> CHR ''.'') (take dot base)
         then drop dot base else [])"

text \<open>\<open>os.path.join\<close> of two parts.\<close>

definition os_path_join :: "string \<Rightarrow> string \<Rightarrow> string" where
  "os_path_join a b =
     (if b \<noteq> [] \<and> hd b = CHR ''/'' then b
      else if a = [] \<or> last a = CHR ''/'' then a @ b
      else a @ CHR ''/'' # b)"

subsection \<open>The file system\<close>

type_synonym path = "string list"

datatype 'b node = Dir | File 'b

record 'b filesystem =
  cwd :: path
  nodes :: "(path \<times> 'b node) list"

fun split_sep :: "string \<Rightarrow> string list" where
  "split_sep [] = [[]]"
| "split_sep (c # cs) =
     (if c = CHR ''/'' then [] # split_sep cs
      else (case split_sep cs of [] \<Rightarrow> [[c]] | w # ws \<Rightarrow> (c # w) # ws))"

fun walk :: "path \<Rightarrow> string list \<Rightarrow> path" where
  "walk acc [] = acc"
| "walk acc (c # cs) =
     (if c = [] \<or> c = ''.'' then walk acc cs
      else if c = ''..'' then walk (butlast acc) cs
      else walk (acc @ [c]) cs)"

text \<open>Path resolution: the empty string names nothing (ENOENT); a relative path starts
  at the current directory; empty components and \<open>.\<close> are skipped, \<open>..\<close> goes up.\<close>

definition resolve :: "'b filesystem \<Rightarrow> string \<Rightarrow> path option" where
  "resolve fs s =
     (if s = [] then None
      else Some (walk (if hd s = CHR ''/'' then [] else cwd fs) (split_sep s)))"

definition lookup :: "'b filesystem \<Rightarrow> path \<Rightarrow> 'b node option" where
  "lookup fs p = (if p = [] then Some Dir else map_of (nodes fs) p)"

definition is_dir :: "'b filesystem \<Rightarrow> path \<Rightarrow> bool" where
  "is_dir fs p = (case lookup fs p of Some Dir \<Rightarrow> True | _ \<Rightarrow> False)"

definition os_path_isdir :: "'b filesystem \<Rightarrow> string \<Rightarrow> bool" where
  "os_path_isdir fs s = (case resolve fs s of None \<Rightarrow> False | Some p \<Rightarrow> is_dir fs p)"

text \<open>The names of the entries directly inside the directory at \<open>p\<close>, of any kind.\<close>

definition children :: "'b filesystem \<Rightarrow> path \<Rightarrow> string list" where
  "children fs p = map (last \<circ> fst) (filter (\<lambda>(q, n). q \<noteq> [] \<and> butlast q = p) (nodes fs))"

text \<open>\<open>os.listdir\<close>, called by the script only after \<open>os.path.isdir\<close> has said yes.\<close>

definition os_listdir :: "'b filesystem \<Rightarrow> string \<Rightarrow> string list" where
  "os_listdir fs s = (case resolve fs s of None \<Rightarrow> [] | Some p \<Rightarrow> children fs p)"

subsection \<open>Exceptions\<close>

datatype message = FolderMissing string | NoSupportedFiles | NothingLoaded

text \<open>\<open>ValueError\<close> with one of the three messages is what the script raises itself; the
  other exceptions come from the operating system, from numpy and from PIL.\<close>

datatype exn =
    ValueError message
  | FileNotFoundError string
  | IsADirectoryError string
  | NotADirectoryError string
  | FileExistsError string
  | TypeError
  | BroadcastError
  | CodecError string

subsection \<open>Rasters, arrays and the image library\<close>

type_synonym index = "nat \<times> nat \<times> nat"

text \<open>A PIL image in mode RGB: \<open>img_size\<close> is (width, height).\<close>

record rgb_image =
  img_size :: "nat \<times> nat"
  getdata :: "index \<Rightarrow> 8 word"

record 'a ndarray =
  shape :: "nat \<times> nat \<times> nat"
  item :: "index \<Rightarrow> 'a"

datatype save_kwargs = Quality_Subsampling nat nat | Optimize bool | NoKwargs

record 'b codec =
  decode :: "'b \<Rightarrow> string + rgb_image"
  lanczos :: "nat \<times> nat \<Rightarrow> rgb_image \<Rightarrow> string + (index \<Rightarrow> 8 word)"
  encode :: "string \<Rightarrow> save_kwargs \<Rightarrow> rgb_image \<Rightarrow> string + 'b"

text \<open>\<open>Image.open(filepath)\<close> followed by \<open>img.convert("RGB")\<close>.\<close>

definition pil_open_rgb :: "'b codec \<Rightarrow> 'b filesystem \<Rightarrow> string \<Rightarrow> exn + rgb_image" where
  "pil_open_rgb cd fs filepath =
     (case resolve fs filepath of
        None \<Rightarrow> Inl (FileNotFoundError filepath)
      | Some p \<Rightarrow>
          (case lookup fs p of
             None \<Rightarrow> Inl (FileNotFoundError filepath)
           | Some Dir \<Rightarrow> Inl (IsADirectoryError filepath)
           | Some (File b) \<Rightarrow>
               (case decode cd b of Inl m \<Rightarrow> Inl (CodecError m) | Inr img \<Rightarrow> Inr img)))"

text \<open>\<open>rgb_img.resize(target_size, Image.Resampling.LANCZOS)\<close>: the result has the size
  asked for.\<close>

definition pil_resize :: "'b codec \<Rightarrow> nat \<times> nat \<Rightarrow> rgb_image \<Rightarrow> exn + rgb_image" where
  "pil_resize cd target img =
     (case lanczos cd target img of
        Inl m \<Rightarrow> Inl (CodecError m)
      | Inr px \<Rightarrow> Inr \<lparr>img_size = target, getdata = px\<rparr>)"

text \<open>\<open>(*target_size[::-1], 3)\<close>\<close>

definition shape_of :: "nat \<times> nat \<Rightarrow> nat \<times> nat \<times> nat" where
  "shape_of sz = (snd sz, fst sz, 3)"

definition np_zeros :: "nat \<times> nat \<times> nat \<Rightarrow> real ndarray" where
  "np_zeros sh = \<lparr>shape = sh, item = (\<lambda>i. 0)\<rparr>"

text \<open>\<open>np.array(rgb_img, dtype=np.float64)\<close>\<close>

definition np_array :: "rgb_image \<Rightarrow> real ndarray" where
  "np_array img =
     \<lparr>shape = shape_of (img_size img), item = (\<lambda>i. real (unat (getdata img i)))\<rparr>"

text \<open>\<open>sum_array += a\<close>: raises on \<open>None\<close>; arrays of different shapes are refused
  (broadcasting is not modelled: the two shapes are always equal here).\<close>

definition np_iadd :: "real ndarray option \<Rightarrow> real ndarray \<Rightarrow> exn + real ndarray" where
  "np_iadd s a =
     (case s of
        None \<Rightarrow> Inl TypeError
      | Some acc \<Rightarrow>
          if shape acc = shape a
          then Inr \<lparr>shape = shape acc, item = (\<lambda>i. item acc i + item a i)\<rparr>
          else Inl BroadcastError)"

definition np_clip :: "real \<Rightarrow> real \<Rightarrow> real \<Rightarrow> real" where
  "np_clip x lo hi = min (max x lo) hi"

text \<open>\<open>.astype(np.uint8)\<close> on one element: the C conversion drops the fraction. After
  the clip the value is in [0, 255], so the wrap-around of \<open>word_of_int\<close> plays no part.\<close>

definition astype_uint8 :: "real \<Rightarrow> 8 word" where
  "astype_uint8 x = word_of_int (if x < 0 then \<lceil>x\<rceil> else \<lfloor>x\<rfloor>)"

text \<open>\<open>np.clip(sum_array / count, 0, 255).astype(np.uint8)\<close>\<close>

definition average_array :: "real ndarray \<Rightarrow> nat \<Rightarrow> 8 word ndarray" where
  "average_array s n =
     \<lparr>shape = shape s, item = (\<lambda>i. astype_uint8 (np_clip (item s i / real n) 0 255))\<rparr>"

text \<open>\<open>Image.fromarray\<close> of a uint8 array of shape (height, width, 3).\<close>

definition fromarray :: "8 word ndarray \<Rightarrow> rgb_image" where
  "fromarray a = \<lparr>img_size = (fst (snd (shape a)), fst (shape a)), getdata = item a\<rparr>"

subsection \<open>Writing\<close>

text \<open>\<open>os.makedirs(name, exist_ok=True)\<close>: walks down the components of the resolved path;
  a directory that exists is kept, a missing one is created, a file in the way raises.\<close>

fun mkdirs :: "'b filesystem \<Rightarrow> string \<Rightarrow> path \<Rightarrow> string list \<Rightarrow> exn + 'b filesystem" where
  "mkdirs fs name pre [] = Inr fs"
| "mkdirs fs name pre (c # cs) =
     (case lookup fs (pre @ [c]) of
        Some Dir \<Rightarrow> mkdirs fs name (pre @ [c]) cs
      | Some (File b) \<Rightarrow>
          Inl (if cs = [] then FileExistsError name else NotADirectoryError name)
      | None \<Rightarrow> mkdirs (fs\<lparr>nodes := nodes fs @ [(pre @ [c], Dir)]\<rparr>) name (pre @ [c]) cs)"

definition os_makedirs :: "'b filesystem \<Rightarrow> string \<Rightarrow> exn + 'b filesystem" where
  "os_makedirs fs name =
     (case resolve fs name of
        None \<Rightarrow> Inl (FileNotFoundError name)
      | Some p \<Rightarrow> mkdirs fs name [] p)"

text \<open>Opening a file for writing and storing the bytes.\<close>

definition write_file :: "'b filesystem \<Rightarrow> string \<Rightarrow> 'b \<Rightarrow> exn + 'b filesystem" where
  "write_file fs name b =
     (case resolve fs name of
        None \<Rightarrow> Inl (FileNotFoundError name)
      | Some p \<Rightarrow>
          if is_dir fs p then Inl (IsADirectoryError name)
          else (case lookup fs (butlast p) of
                  None \<Rightarrow> Inl (FileNotFoundError name)
                | Some (File _) \<Rightarrow> Inl (NotADirectoryError name)
                | Some Dir \<Rightarrow> Inr (fs\<lparr>nodes := AList.update p (File b) (nodes fs)\<rparr>)))"

text \<open>\<open>result_img.save(output_path, ...)\<close>: PIL picks the format from the file name and
  refuses an unknown one before it opens the file.\<close>

definition pil_save ::
  "'b codec \<Rightarrow> 'b filesystem \<Rightarrow> string \<Rightarrow> save_kwargs \<Rightarrow> rgb_image \<Rightarrow> exn + 'b filesystem" where
  "pil_save cd fs name kw img =
     (case encode cd name kw img of
        Inl m \<Rightarrow> Inl (CodecError m)
      | Inr b \<Rightarrow> write_file fs name b)"

subsection \<open>compute_average_image\<close>

datatype line =
    Found nat
  | Progress nat nat string
  | Baseline "nat \<times> nat"
  | Skip string exn
  | Done
  | Succeeded nat
  | Resized nat
  | OutputSize "(nat \<times> nat) option"
  | Elapsed
  | SkippedFiles nat
  | SkippedFile string exn
  | SavedTo "path option"

text \<open>The local variables of the function that the loop changes, and the console.\<close>

record state =
  sum_array :: "real ndarray option"
  target_size :: "(nat \<times> nat) option"
  count :: nat
  resize_count :: nat
  errors :: "(string \<times> exn) list"
  stdout :: "line list"

definition init :: "nat \<Rightarrow> state" where
  "init total_files =
     \<lparr>sum_array = None, target_size = None, count = 0, resize_count = 0, errors = [],
      stdout = [Found total_files]\<rparr>"

text \<open>Lines 60-61: \<open>sum_array += np.array(rgb_img, dtype=np.float64); count += 1\<close>.
  The second component is the exception that left the \<open>try\<close> block, if any; what was
  assigned before it stays assigned.\<close>

definition accumulate :: "rgb_image \<Rightarrow> state \<Rightarrow> state \<times> exn option" where
  "accumulate img st =
     (case np_iadd (sum_array st) (np_array img) of
        Inl e \<Rightarrow> (st, Some e)
      | Inr a \<Rightarrow> (st\<lparr>sum_array := Some a, count := count st + 1\<rparr>, None))"

text \<open>Lines 44-61, the body of the \<open>try\<close>.\<close>

definition try_block ::
  "'b codec \<Rightarrow> 'b filesystem \<Rightarrow> string \<Rightarrow> state \<Rightarrow> state \<times> exn option" where
  "try_block cd fs filepath st =
     (case pil_open_rgb cd fs filepath of
        Inl e \<Rightarrow> (st, Some e)
      | Inr rgb_img \<Rightarrow>
          let (target, st1) =
                (case target_size st of
                   None \<Rightarrow>
                     (img_size rgb_img,
                      st\<lparr>target_size := Some (img_size rgb_img),
                         sum_array := Some (np_zeros (shape_of (img_size rgb_img))),
                         stdout := stdout st @ [Baseline (img_size rgb_img)]\<rparr>)
                 | Some t \<Rightarrow> (t, st))
          in if img_size rgb_img \<noteq> target
             then (case pil_resize cd target rgb_img of
                     Inl e \<Rightarrow> (st1, Some e)
                   | Inr resized \<Rightarrow>
                       accumulate resized (st1\<lparr>resize_count := resize_count st1 + 1\<rparr>))
             else accumulate rgb_img st1)"

text \<open>Lines 40-66, one iteration of the loop.\<close>

definition body ::
  "'b codec \<Rightarrow> 'b filesystem \<Rightarrow> string \<Rightarrow> nat \<Rightarrow> state \<Rightarrow> nat \<times> string \<Rightarrow> state" where
  "body cd fs input_folder total_files st cf =
     (let current = fst cf; filename = snd cf;
          filepath = os_path_join input_folder filename;
          st0 = st\<lparr>stdout := stdout st @ [Progress current total_files filename]\<rparr>
      in case try_block cd fs filepath st0 of
           (st', None) \<Rightarrow> st'
         | (st', Some e) \<Rightarrow>
             st'\<lparr>errors := errors st' @ [(filename, e)],
                 stdout := stdout st' @ [Skip filename e]\<rparr>)"

text \<open>Lines 39-66: \<open>for current, filename in enumerate(sorted(file_list), 1)\<close>.\<close>

definition main_loop ::
  "'b codec \<Rightarrow> 'b filesystem \<Rightarrow> string \<Rightarrow> string list \<Rightarrow> state" where
  "main_loop cd fs input_folder file_list =
     foldl (body cd fs input_folder (length file_list)) (init (length file_list))
       (enumerate 1 (sort file_list))"

text \<open>Lines 21-24.\<close>

definition file_list_of :: "'b filesystem \<Rightarrow> string \<Rightarrow> string list" where
  "file_list_of fs input_folder =
     filter (\<lambda>f. endswith_any (lower f) valid_extensions) (os_listdir fs input_folder)"

text \<open>Lines 82-87: the keyword arguments of \<open>save\<close>.\<close>

definition kwargs_for :: "string \<Rightarrow> save_kwargs" where
  "kwargs_for output_path =
     (let output_ext = lower (os_path_splitext_ext output_path)
      in if output_ext \<in> set [''.jpg'', ''.jpeg''] then Quality_Subsampling 100 0
         else if output_ext = ''.png'' then Optimize True
         else NoKwargs)"

text \<open>Lines 90-101, the report.\<close>

definition report :: "'b filesystem \<Rightarrow> string \<Rightarrow> state \<Rightarrow> line list" where
  "report fs output_path st =
     [Done, Succeeded (count st), Resized (resize_count st), OutputSize (target_size st),
      Elapsed]
     @ (case errors st of
          [] \<Rightarrow> []
        | _ # _ \<Rightarrow>
            SkippedFiles (length (errors st)) # map (\<lambda>(f, e). SkippedFile f e) (errors st))
     @ [SavedTo (resolve fs output_path)]"

text \<open>Lines 72-101: what follows the check of \<open>count\<close>. The result is the exception the
  call ends with, if any, the file system it leaves and what it printed.\<close>

definition finish ::
  "'b codec \<Rightarrow> 'b filesystem \<Rightarrow> string \<Rightarrow> state \<Rightarrow> exn option \<times> 'b filesystem \<times> line list" where
  "finish cd fs output_path st =
     (case sum_array st of
        None \<Rightarrow> (Some TypeError, fs, stdout st)
      | Some s \<Rightarrow>
          let avg = average_array s (count st) in
          (case os_makedirs fs (os_path_dirname output_path) of
             Inl e \<Rightarrow> (Some e, fs, stdout st)
           | Inr fs1 \<Rightarrow>
               (case pil_save cd fs1 output_path (kwargs_for output_path) (fromarray avg) of
                  Inl e \<Rightarrow> (Some e, fs1, stdout st)
                | Inr fs2 \<Rightarrow> (None, fs2, stdout st @ report fs2 output_path st))))"

definition compute_average_image ::
  "'b codec \<Rightarrow> 'b filesystem \<Rightarrow> string \<Rightarrow> string \<Rightarrow> exn option \<times> 'b filesystem \<times> line list" where
  "compute_average_image cd fs input_folder output_path =
     (if \<not> os_path_isdir fs input_folder
      then (Some (ValueError (FolderMissing input_folder)), fs, [])
      else
        let file_list = file_list_of fs input_folder;
            total_files = length file_list
        in if total_files = 0 then (Some (ValueError NoSupportedFiles), fs, [])
           else
             let st = main_loop cd fs input_folder file_list
             in if count st = 0 then (Some (ValueError NothingLoaded), fs, stdout st)
                else finish cd fs output_path st)"

subsection \<open>What the loop is meant to compute\<close>

text \<open>The definitions below say in two passes what the loop does in one: first the
  reference size, then what each file contributes. They are compared with the loop in
  the theorems.\<close>

definition decoded :: "'b codec \<Rightarrow> 'b filesystem \<Rightarrow> string \<Rightarrow> string \<Rightarrow> exn + rgb_image" where
  "decoded cd fs folder name = pil_open_rgb cd fs (os_path_join folder name)"

text \<open>The size of the first image, in processing order, that decodes.\<close>

fun reference_size ::
  "'b codec \<Rightarrow> 'b filesystem \<Rightarrow> string \<Rightarrow> string list \<Rightarrow> (nat \<times> nat) option" where
  "reference_size cd fs folder [] = None"
| "reference_size cd fs folder (n # ns) =
     (case decoded cd fs folder n of
        Inr img \<Rightarrow> Some (img_size img)
      | Inl e \<Rightarrow> reference_size cd fs folder ns)"

text \<open>A file, decoded and brought to the reference size: resampled when its size
  differs, left alone otherwise.\<close>

definition conformed ::
  "'b codec \<Rightarrow> 'b filesystem \<Rightarrow> string \<Rightarrow> nat \<times> nat \<Rightarrow> string \<Rightarrow> exn + rgb_image" where
  "conformed cd fs folder ref name =
     (case decoded cd fs folder name of
        Inl e \<Rightarrow> Inl e
      | Inr img \<Rightarrow> if img_size img = ref then Inr img else pil_resize cd ref img)"

text \<open>The images that are processed successfully, the files that are skipped, and the
  files that are resampled successfully.\<close>

definition processed ::
  "'b codec \<Rightarrow> 'b filesystem \<Rightarrow> string \<Rightarrow> nat \<times> nat \<Rightarrow> string list \<Rightarrow> rgb_image list" where
  "processed cd fs folder ref names =
     concat (map (\<lambda>n. case conformed cd fs folder ref n of Inr img \<Rightarrow> [img] | Inl e \<Rightarrow> [])
       names)"

definition skipped ::
  "'b codec \<Rightarrow> 'b filesystem \<Rightarrow> string \<Rightarrow> nat \<times> nat \<Rightarrow> string list \<Rightarrow> (string \<times> exn) list" where
  "skipped cd fs folder ref names =
     concat (map (\<lambda>n. case conformed cd fs folder ref n of Inr img \<Rightarrow> [] | Inl e \<Rightarrow> [(n, e)])
       names)"

definition needs_resize ::
  "'b codec \<Rightarrow> 'b filesystem \<Rightarrow> string \<Rightarrow> nat \<times> nat \<Rightarrow> string \<Rightarrow> bool" where
  "needs_resize cd fs folder ref name =
     (case decoded cd fs folder name of Inl e \<Rightarrow> False | Inr img \<Rightarrow> img_size img \<noteq> ref)"

definition succeeds ::
  "'b codec \<Rightarrow> 'b filesystem \<Rightarrow> string \<Rightarrow> nat \<times> nat \<Rightarrow> string \<Rightarrow> bool" where
  "succeeds cd fs folder ref name =
     (case conformed cd fs folder ref name of Inl e \<Rightarrow> False | Inr img \<Rightarrow> True)"

definition resized ::
  "'b codec \<Rightarrow> 'b filesystem \<Rightarrow> string \<Rightarrow> nat \<times> nat \<Rightarrow> string list \<Rightarrow> string list" where
  "resized cd fs folder ref names =
     filter (\<lambda>n. needs_resize cd fs folder ref n \<and> succeeds cd fs folder ref n) names"

text \<open>The element-wise sum of the samples of a list of images, as reals.\<close>

definition pixel_sum :: "rgb_image list \<Rightarrow> index \<Rightarrow> real" where
  "pixel_sum imgs i = sum_list (map (\<lambda>img. real (unat (getdata img i))) imgs)"

text \<open>The names shown by the progress lines of a console.\<close>

fun progress_names :: "line list \<Rightarrow> string list" where
  "progress_names [] = []"
| "progress_names (Progress c t f # ls) = f # progress_names ls"
| "progress_names (l # ls) = progress_names ls"

text \<open>The lines of the final report, which the loop never prints.\<close>

fun summary_line :: "line \<Rightarrow> bool" where
  "summary_line (Found n) = False"
| "summary_line (Progress c t f) = False"
| "summary_line (Baseline sz) = False"
| "summary_line (Skip f e) = False"
| "summary_line l = True"

definition summary_lines :: "line list \<Rightarrow> line list" where
  "summary_lines ls = filter summary_line ls"

text \<open>A file is counted when the whole \<open>try\<close> block succeeds for it.\<close>

definition counted :: "'b codec \<Rightarrow> 'b filesystem \<Rightarrow> string \<Rightarrow> string list \<Rightarrow> string \<Rightarrow> bool" where
  "counted cd fs folder names n =
     (case reference_size cd fs folder names of
        None \<Rightarrow> False
      | Some ref \<Rightarrow> succeeds cd fs folder ref n)"

text \<open>The images that decode, before any resampling.\<close>

definition decodable ::
  "'b codec \<Rightarrow> 'b filesystem \<Rightarrow> string \<Rightarrow> string list \<Rightarrow> rgb_image list" where
  "decodable cd fs folder names =
     concat (map (\<lambda>n. case decoded cd fs folder n of Inr img \<Rightarrow> [img] | Inl e \<Rightarrow> []) names)"

text \<open>The raster that the specification asks for: the sum of the processed images
  divided by their number, clipped to [0, 255] and converted to 8-bit samples.\<close>

definition expected_image ::
  "'b codec \<Rightarrow> 'b filesystem \<Rightarrow> string \<Rightarrow> string list \<Rightarrow> rgb_image option" where
  "expected_image cd fs folder names =
     (case reference_size cd fs folder names of
        None \<Rightarrow> None
      | Some ref \<Rightarrow>
          let imgs = processed cd fs folder ref names
          in Some \<lparr>img_size = ref,
                   getdata = (\<lambda>i. astype_uint8
                     (np_clip (pixel_sum imgs i / real (length imgs)) 0 255))\<rparr>)"

subsection \<open>Example inputs\<close>

text \<open>A small image library for the examples: the bytes of a file are either an
  undecodable blob with the message PIL gives for it, or an RGB raster; resampling
  keeps the samples; encoding stores the raster.\<close>

definition example_codec :: "(string + rgb_image) codec" where
  "example_codec =
     \<lparr>decode = (\<lambda>b. b),
      lanczos = (\<lambda>target img. Inr (getdata img)),
      encode = (\<lambda>name kw img. Inr (Inr img))\<rparr>"

text \<open>The image of one colour, every sample \<open>v\<close>.\<close>

definition flat :: "nat \<times> nat \<Rightarrow> 8 word \<Rightarrow> rgb_image" where
  "flat sz v = \<lparr>img_size = sz, getdata = (\<lambda>i. v)\<rparr>"

text \<open>Three valid images and two corrupt files.\<close>

definition fs_mixed :: "(string + rgb_image) filesystem" where
  "fs_mixed =
     \<lparr>cwd = [],
      nodes = [([''images''], Dir),
               ([''images'', ''c.png''], File (Inr (flat (2, 2) 20))),
               ([''images'', ''a.png''], File (Inr (flat (2, 2) 10))),
               ([''images'', ''b.png''], File (Inl ''truncated'')),
               ([''images'', ''e.png''], File (Inr (flat (2, 2) 30))),
               ([''images'', ''d.png''], File (Inl ''cannot identify''))]\<rparr>"

text \<open>Two corrupt files and a text file.\<close>

definition fs_corrupt :: "(string + rgb_image) filesystem" where
  "fs_corrupt =
     \<lparr>cwd = [''home''],
      nodes = [([''home''], Dir),
               ([''home'', ''images''], Dir),
               ([''home'', ''images'', ''y.jpg''], File (Inl ''truncated'')),
               ([''home'', ''images'', ''notes.txt''], File (Inl ''cannot identify'')),
               ([''home'', ''images'', ''x.JPG''], File (Inl ''cannot identify''))]\<rparr>"

text \<open>A folder with a subdirectory whose name ends in \<open>.jpg\<close>, and an image inside it.\<close>

definition fs_nested :: "(string + rgb_image) filesystem" where
  "fs_nested =
     \<lparr>cwd = [],
      nodes = [([''images''], Dir),
               ([''images'', ''a.png''], File (Inr (flat (1, 1) 10))),
               ([''images'', ''sub.jpg''], Dir),
               ([''images'', ''sub.jpg'', ''deep.png''], File (Inr (flat (1, 1) 30))),
               ([''images'', ''notes.txt''], File (Inl ''cannot identify''))]\<rparr>"

text \<open>An image whose samples differ from place to place.\<close>

definition gradient :: "nat \<times> nat \<Rightarrow> rgb_image" where
  "gradient sz =
     \<lparr>img_size = sz, getdata = (\<lambda>(row, col, ch). word_of_nat (50 * row + 10 * col + ch))\<rparr>"

text \<open>One valid image beside a corrupt file.\<close>

definition fs_single :: "(string + rgb_image) filesystem" where
  "fs_single =
     \<lparr>cwd = [],
      nodes = [([''images''], Dir),
               ([''images'', ''broken.bmp''], File (Inl ''cannot identify'')),
               ([''images'', ''only.tiff''], File (Inr (gradient (3, 2))))]\<rparr>"

text \<open>Three copies of one image.\<close>

definition fs_copies :: "(string + rgb_image) filesystem" where
  "fs_copies =
     \<lparr>cwd = [],
      nodes = [([''images''], Dir),
               ([''images'', ''1.png''], File (Inr (gradient (3, 2)))),
               ([''images'', ''2.png''], File (Inr (gradient (3, 2)))),
               ([''images'', ''3.png''], File (Inr (gradient (3, 2))))]\<rparr>"

text \<open>Images of two sizes and a corrupt file; the first in sorted order is 2 by 2.\<close>

definition fs_sizes :: "(string + rgb_image) filesystem" where
  "fs_sizes =
     \<lparr>cwd = [],
      nodes = [([''images''], Dir),
               ([''images'', ''b.png''], File (Inr (flat (3, 1) 40))),
               ([''images'', ''a.png''], File (Inr (flat (2, 2) 10))),
               ([''images'', ''d.png''], File (Inl ''truncated'')),
               ([''images'', ''c.png''], File (Inr (flat (2, 2) 20)))]\<rparr>"

text \<open>Ten images of one pixel: nine with every sample 1, one with every sample 0.\<close>

definition fs_tenth :: "(string + rgb_image) filesystem" where
  "fs_tenth =
     \<lparr>cwd = [],
      nodes = [([''images''], Dir),
               ([''images'', ''0.png''], File (Inr (flat (1, 1) 1))),
               ([''images'', ''1.png''], File (Inr (flat (1, 1) 1))),
               ([''images'', ''2.png''], File (Inr (flat (1, 1) 1))),
               ([''images'', ''3.png''], File (Inr (flat (1, 1) 1))),
               ([''images'', ''4.png''], File (Inr (flat (1, 1) 0))),
               ([''images'', ''5.png''], File (Inr (flat (1, 1) 1))),
               ([''images'', ''6.png''], File (Inr (flat (1, 1) 1))),
               ([''images'', ''7.png''], File (Inr (flat (1, 1) 1))),
               ([''images'', ''8.png''], File (Inr (flat (1, 1) 1))),
               ([''images'', ''9.png''], File (Inr (flat (1, 1) 1)))]\<rparr>"

section \<open>Properties\<close>

subsection \<open>The loop\<close>

lemma conformed_size:
  "conformed cd fs folder ref name = Inr img \<Longrightarrow> img_size img = ref"
  by (auto simp: conformed_def pil_resize_def split: sum.splits if_splits)

lemma progress_names_append:
  "progress_names (xs @ ys) = progress_names xs @ progress_names ys"
  by (induction xs rule: progress_names.induct) simp_all

lemma body_later:
  assumes "target_size st = Some ref" "sum_array st = Some a" "shape a = shape_of ref"
  shows "body cd fs folder tot st (c, name) =
    (case conformed cd fs folder ref name of
       Inl e \<Rightarrow> st\<lparr>errors := errors st @ [(name, e)],
                  stdout := stdout st @ [Progress c tot name, Skip name e]\<rparr>
     | Inr img \<Rightarrow>
         st\<lparr>sum_array := Some \<lparr>shape = shape a,
                                 item = (\<lambda>i. item a i + real (unat (getdata img i)))\<rparr>,
            count := count st + 1,
            resize_count := resize_count st + (if needs_resize cd fs folder ref name then 1 else 0),
            stdout := stdout st @ [Progress c tot name]\<rparr>)"
  using assms
  by (auto simp: body_def try_block_def conformed_def decoded_def accumulate_def np_iadd_def
      np_array_def pil_resize_def needs_resize_def Let_def split: sum.splits)

lemma body_first:
  assumes "target_size st = None"
  shows "body cd fs folder tot st (c, name) =
    (case decoded cd fs folder name of
       Inl e \<Rightarrow> st\<lparr>errors := errors st @ [(name, e)],
                  stdout := stdout st @ [Progress c tot name, Skip name e]\<rparr>
     | Inr img \<Rightarrow>
         st\<lparr>target_size := Some (img_size img),
            sum_array := Some \<lparr>shape = shape_of (img_size img),
                                 item = (\<lambda>i. real (unat (getdata img i)))\<rparr>,
            count := count st + 1,
            stdout := stdout st @ [Progress c tot name, Baseline (img_size img)]\<rparr>)"
  using assms
  by (auto simp: body_def try_block_def decoded_def accumulate_def np_iadd_def
      np_array_def np_zeros_def Let_def split: sum.splits)


lemma processed_Cons:
  "processed cd fs folder ref (n # ns) =
     (case conformed cd fs folder ref n of Inr img \<Rightarrow> [img] | Inl e \<Rightarrow> []) @ processed cd fs folder ref ns"
  by (simp add: processed_def)

lemma skipped_Cons:
  "skipped cd fs folder ref (n # ns) =
     (case conformed cd fs folder ref n of Inr img \<Rightarrow> [] | Inl e \<Rightarrow> [(n, e)]) @ skipped cd fs folder ref ns"
  by (simp add: skipped_def)

lemma pixel_sum_Cons: "pixel_sum (img # imgs) i = real (unat (getdata img i)) + pixel_sum imgs i"
  by (simp add: pixel_sum_def)

lemma pixel_sum_Nil: "pixel_sum [] i = 0"
  by (simp add: pixel_sum_def)

lemma loop_later:
  assumes "target_size st = Some ref" "sum_array st = Some a" "shape a = shape_of ref"
  shows "target_size (foldl (body cd fs folder tot) st items) = Some ref \<and>
     sum_array (foldl (body cd fs folder tot) st items) =
       Some \<lparr>shape = shape_of ref,
             item = (\<lambda>i. item a i + pixel_sum (processed cd fs folder ref (map snd items)) i)\<rparr> \<and>
     count (foldl (body cd fs folder tot) st items) =
       count st + length (processed cd fs folder ref (map snd items)) \<and>
     resize_count (foldl (body cd fs folder tot) st items) =
       resize_count st + length (resized cd fs folder ref (map snd items)) \<and>
     errors (foldl (body cd fs folder tot) st items) =
       errors st @ skipped cd fs folder ref (map snd items) \<and>
     progress_names (stdout (foldl (body cd fs folder tot) st items)) =
       progress_names (stdout st) @ map snd items \<and>
     summary_lines (stdout (foldl (body cd fs folder tot) st items)) =
       summary_lines (stdout st)"
  using assms
proof (induction items arbitrary: st a)
  case Nil
  then show ?case
    by (cases a) (simp add: processed_def skipped_def resized_def pixel_sum_Nil)
next
  case (Cons x xs)
  obtain c name where x: "x = (c, name)" by (cases x)
  show ?case
  proof (cases "conformed cd fs folder ref name")
    case (Inl e)
    let ?st1 = "st\<lparr>errors := errors st @ [(name, e)],
                  stdout := stdout st @ [Progress c tot name, Skip name e]\<rparr>"
    have b: "body cd fs folder tot st (c, name) = ?st1"
      using Cons.prems Inl by (simp add: body_later)
    have nr: "\<not> succeeds cd fs folder ref name"
      using Inl by (simp add: succeeds_def)
    show ?thesis
      using Cons.IH [of ?st1 a] Cons.prems Inl nr
      by (simp add: b x processed_Cons skipped_Cons resized_def progress_names_append summary_lines_def)
  next
    case (Inr img)
    let ?a1 = "\<lparr>shape = shape a, item = (\<lambda>i. item a i + real (unat (getdata img i)))\<rparr>"
    let ?st1 = "st\<lparr>sum_array := Some ?a1,
            count := count st + 1,
            resize_count := resize_count st + (if needs_resize cd fs folder ref name then 1 else 0),
            stdout := stdout st @ [Progress c tot name]\<rparr>"
    have b: "body cd fs folder tot st (c, name) = ?st1"
      using Cons.prems Inr by (simp add: body_later)
    have sc: "succeeds cd fs folder ref name"
      using Inr by (simp add: succeeds_def)
    show ?thesis
      using Cons.IH [of ?st1 ?a1] Cons.prems Inr sc
      by (simp add: b x processed_Cons skipped_Cons resized_def progress_names_append summary_lines_def
          pixel_sum_Cons add.assoc)
  qed
qed


lemma loop_none:
  assumes "target_size st = None" "reference_size cd fs folder (map snd items) = None"
  shows "target_size (foldl (body cd fs folder tot) st items) = None \<and>
     sum_array (foldl (body cd fs folder tot) st items) = sum_array st \<and>
     count (foldl (body cd fs folder tot) st items) = count st \<and>
     resize_count (foldl (body cd fs folder tot) st items) = resize_count st \<and>
     errors (foldl (body cd fs folder tot) st items) =
       errors st @ skipped cd fs folder ref (map snd items) \<and>
     progress_names (stdout (foldl (body cd fs folder tot) st items)) =
       progress_names (stdout st) @ map snd items \<and>
     summary_lines (stdout (foldl (body cd fs folder tot) st items)) =
       summary_lines (stdout st)"
  using assms
proof (induction items arbitrary: st)
  case Nil
  then show ?case by (simp add: skipped_def)
next
  case (Cons x xs)
  obtain c name where x: "x = (c, name)" by (cases x)
  from Cons.prems(2) obtain e where d: "decoded cd fs folder name = Inl e"
    and r: "reference_size cd fs folder (map snd xs) = None"
    by (auto simp: x split: sum.splits)
  let ?st1 = "st\<lparr>errors := errors st @ [(name, e)],
                  stdout := stdout st @ [Progress c tot name, Skip name e]\<rparr>"
  have b: "body cd fs folder tot st (c, name) = ?st1"
    using Cons.prems(1) d by (simp add: body_first)
  have cf: "conformed cd fs folder ref name = Inl e"
    using d by (simp add: conformed_def)
  show ?case
    using Cons.IH [of ?st1] Cons.prems(1) r cf
    by (simp add: b x skipped_Cons progress_names_append summary_lines_def)
qed

lemma loop_some:
  assumes "target_size st = None" "reference_size cd fs folder (map snd items) = Some ref"
  shows "target_size (foldl (body cd fs folder tot) st items) = Some ref \<and>
     sum_array (foldl (body cd fs folder tot) st items) =
       Some \<lparr>shape = shape_of ref,
             item = pixel_sum (processed cd fs folder ref (map snd items))\<rparr> \<and>
     count (foldl (body cd fs folder tot) st items) =
       count st + length (processed cd fs folder ref (map snd items)) \<and>
     resize_count (foldl (body cd fs folder tot) st items) =
       resize_count st + length (resized cd fs folder ref (map snd items)) \<and>
     errors (foldl (body cd fs folder tot) st items) =
       errors st @ skipped cd fs folder ref (map snd items) \<and>
     progress_names (stdout (foldl (body cd fs folder tot) st items)) =
       progress_names (stdout st) @ map snd items \<and>
     summary_lines (stdout (foldl (body cd fs folder tot) st items)) =
       summary_lines (stdout st)"
  using assms
proof (induction items arbitrary: st)
  case Nil
  then show ?case by simp
next
  case (Cons x xs)
  obtain c name where x: "x = (c, name)" by (cases x)
  show ?case
  proof (cases "decoded cd fs folder name")
    case (Inl e)
    then have r: "reference_size cd fs folder (map snd xs) = Some ref"
      using Cons.prems(2) by (simp add: x)
    let ?st1 = "st\<lparr>errors := errors st @ [(name, e)],
                  stdout := stdout st @ [Progress c tot name, Skip name e]\<rparr>"
    have b: "body cd fs folder tot st (c, name) = ?st1"
      using Cons.prems(1) Inl by (simp add: body_first)
    have cf: "conformed cd fs folder ref name = Inl e"
      using Inl by (simp add: conformed_def)
    have nr: "\<not> succeeds cd fs folder ref name"
      using cf by (simp add: succeeds_def)
    show ?thesis
      using Cons.IH [of ?st1] Cons.prems(1) r cf nr
      by (simp add: b x processed_Cons skipped_Cons resized_def progress_names_append summary_lines_def)
  next
    case (Inr img)
    then have ref: "ref = img_size img"
      using Cons.prems(2) by (simp add: x)
    let ?a1 = "\<lparr>shape = shape_of ref, item = (\<lambda>i. real (unat (getdata img i)))\<rparr>"
    let ?st1 = "st\<lparr>target_size := Some ref, sum_array := Some ?a1,
            count := count st + 1,
            stdout := stdout st @ [Progress c tot name, Baseline ref]\<rparr>"
    have b: "body cd fs folder tot st (c, name) = ?st1"
      using Cons.prems(1) Inr by (simp add: body_first ref)
    have cf: "conformed cd fs folder ref name = Inr img"
      using Inr by (simp add: conformed_def ref)
    have nr: "\<not> needs_resize cd fs folder ref name"
      using Inr by (simp add: needs_resize_def ref)
    have "target_size ?st1 = Some ref" "sum_array ?st1 = Some ?a1" "shape ?a1 = shape_of ref"
      by simp_all
    from loop_later [OF this, of cd fs folder tot xs] cf nr
    show ?thesis
      by (simp add: b x processed_Cons skipped_Cons resized_def progress_names_append summary_lines_def
          pixel_sum_Cons fun_eq_iff)
  qed
qed

lemma main_loop_none:
  assumes "reference_size cd fs folder (sort file_list) = None"
  shows "target_size (main_loop cd fs folder file_list) = None \<and>
     sum_array (main_loop cd fs folder file_list) = None \<and>
     count (main_loop cd fs folder file_list) = 0 \<and>
     resize_count (main_loop cd fs folder file_list) = 0 \<and>
     errors (main_loop cd fs folder file_list) = skipped cd fs folder ref (sort file_list) \<and>
     progress_names (stdout (main_loop cd fs folder file_list)) = sort file_list \<and>
     summary_lines (stdout (main_loop cd fs folder file_list)) = []"
proof -
  have "target_size (init (length file_list)) = None"
    by (simp add: init_def)
  from loop_none [OF this, of cd fs folder "enumerate 1 (sort file_list)" "length file_list" ref]
    assms
  show ?thesis
    by (simp add: main_loop_def init_def summary_lines_def)
qed

lemma main_loop_some:
  assumes "reference_size cd fs folder (sort file_list) = Some ref"
  shows "target_size (main_loop cd fs folder file_list) = Some ref \<and>
     sum_array (main_loop cd fs folder file_list) =
       Some \<lparr>shape = shape_of ref,
             item = pixel_sum (processed cd fs folder ref (sort file_list))\<rparr> \<and>
     count (main_loop cd fs folder file_list) =
       length (processed cd fs folder ref (sort file_list)) \<and>
     resize_count (main_loop cd fs folder file_list) =
       length (resized cd fs folder ref (sort file_list)) \<and>
     errors (main_loop cd fs folder file_list) = skipped cd fs folder ref (sort file_list) \<and>
     progress_names (stdout (main_loop cd fs folder file_list)) = sort file_list \<and>
     summary_lines (stdout (main_loop cd fs folder file_list)) = []"
proof -
  have "target_size (init (length file_list)) = None"
    by (simp add: init_def)
  from loop_some [OF this, of cd fs folder "enumerate 1 (sort file_list)" ref "length file_list"]
    assms
  show ?thesis
    by (simp add: main_loop_def init_def summary_lines_def)
qed

lemma length_processed:
  "length (processed cd fs folder ref names) = length (filter (succeeds cd fs folder ref) names)"
  by (induction names) (simp_all add: processed_def succeeds_def split: sum.splits)

lemma names_skipped:
  "map fst (skipped cd fs folder ref names) =
     filter (\<lambda>n. \<not> succeeds cd fs folder ref n) names"
  by (induction names) (simp_all add: skipped_def succeeds_def split: sum.splits)

lemma processed_plus_skipped:
  "length (processed cd fs folder ref names) + length (skipped cd fs folder ref names) =
     length names"
  by (induction names) (simp_all add: processed_def skipped_def split: sum.splits)

lemma reference_size_None:
  "reference_size cd fs folder names = None \<longleftrightarrow>
     (\<forall>n \<in> set names. \<exists>e. decoded cd fs folder n = Inl e)"
  by (induction names) (auto split: sum.splits)

lemma reference_size_Some_processed:
  "reference_size cd fs folder names = Some ref \<Longrightarrow> processed cd fs folder ref names \<noteq> []"
  by (induction names) (auto simp: processed_Cons conformed_def split: sum.splits)

lemma count_zero_iff:
  "count (main_loop cd fs folder file_list) = 0 \<longleftrightarrow>
     reference_size cd fs folder (sort file_list) = None"
proof (cases "reference_size cd fs folder (sort file_list)")
  case None
  with main_loop_none [OF None] show ?thesis by simp
next
  case (Some ref)
  with main_loop_some [OF Some] reference_size_Some_processed [OF Some] show ?thesis by simp
qed

lemma none_fail:
  "reference_size cd fs folder names = None \<Longrightarrow> n \<in> set names \<Longrightarrow>
     \<not> succeeds cd fs folder ref n"
  by (auto simp: reference_size_None succeeds_def conformed_def)

lemma none_skipped_all:
  "reference_size cd fs folder names = None \<Longrightarrow>
     map fst (skipped cd fs folder ref names) = names"
  by (simp add: names_skipped none_fail)

lemma counted_None:
  "reference_size cd fs folder names = None \<Longrightarrow> counted cd fs folder names = (\<lambda>n. False)"
  by (simp add: fun_eq_iff counted_def)

lemma counted_Some:
  "reference_size cd fs folder names = Some ref \<Longrightarrow>
     counted cd fs folder names = succeeds cd fs folder ref"
  by (simp add: fun_eq_iff counted_def)

subsection \<open>The output phase and the whole run\<close>

lemma mkdirs_exn:
  "mkdirs fs name pre cs = Inl e \<Longrightarrow> e = FileExistsError name \<or> e = NotADirectoryError name"
  by (induction cs arbitrary: fs pre) (auto split: option.splits node.splits if_splits)

lemma mkdirs_cwd: "mkdirs fs name pre cs = Inr fs' \<Longrightarrow> cwd fs' = cwd fs"
proof (induction cs arbitrary: fs pre)
  case Nil
  then show ?case by simp
next
  case (Cons c cs)
  then show ?case
    by (fastforce split: option.splits node.splits)
qed

lemma os_makedirs_exn:
  "os_makedirs fs name = Inl e \<Longrightarrow> (\<forall>m. e \<noteq> ValueError m)"
  by (auto simp: os_makedirs_def split: option.splits dest: mkdirs_exn)

lemma write_file_exn:
  "write_file fs name b = Inl e \<Longrightarrow> (\<forall>m. e \<noteq> ValueError m)"
  by (auto simp: write_file_def split: option.splits node.splits if_splits)

lemma pil_save_exn:
  "pil_save cd fs name kw img = Inl e \<Longrightarrow> (\<forall>m. e \<noteq> ValueError m)"
  by (auto simp: pil_save_def split: sum.splits dest: write_file_exn)

lemma finish_exn:
  "finish cd fs out st = (Some e, fs', printed) \<Longrightarrow> (\<forall>m. e \<noteq> ValueError m)"
  by (auto simp: finish_def Let_def split: option.splits sum.splits
      dest: os_makedirs_exn pil_save_exn)

lemma run_cases:
  "compute_average_image cd fs folder out =
     (if \<not> os_path_isdir fs folder then (Some (ValueError (FolderMissing folder)), fs, [])
      else if file_list_of fs folder = [] then (Some (ValueError NoSupportedFiles), fs, [])
      else if count (main_loop cd fs folder (file_list_of fs folder)) = 0
        then (Some (ValueError NothingLoaded), fs,
              stdout (main_loop cd fs folder (file_list_of fs folder)))
      else finish cd fs out (main_loop cd fs folder (file_list_of fs folder)))"
  by (simp add: compute_average_image_def Let_def)

lemma progress_names_sorted:
  "progress_names (stdout (main_loop cd fs folder file_list)) = sort file_list"
  by (cases "reference_size cd fs folder (sort file_list)")
     (simp_all add: main_loop_none [of _ _ _ _ "(0, 0)"] main_loop_some)

lemma all_fail_iff:
  "count (main_loop cd fs folder file_list) = 0 \<longleftrightarrow>
     (\<forall>n \<in> set file_list. \<exists>x. decoded cd fs folder n = Inl x)"
  by (simp add: count_zero_iff reference_size_None)

lemma children_iff:
  "n \<in> set (children fs p) \<longleftrightarrow> (\<exists>node. (p @ [n], node) \<in> set (nodes fs))"
proof
  assume "n \<in> set (children fs p)"
  then obtain q node where "(q, node) \<in> set (nodes fs)" "q \<noteq> []" "butlast q = p" "last q = n"
    by (auto simp: children_def)
  then have "q = p @ [n]"
    using append_butlast_last_id [of q] by simp
  with \<open>(q, node) \<in> set (nodes fs)\<close> show "\<exists>node. (p @ [n], node) \<in> set (nodes fs)"
    by blast
next
  assume "\<exists>node. (p @ [n], node) \<in> set (nodes fs)"
  then obtain node where "(p @ [n], node) \<in> set (nodes fs)" ..
  then show "n \<in> set (children fs p)"
    by (force simp: children_def)
qed

lemma dirname_bare: "CHR ''/'' \<notin> set out \<Longrightarrow> os_path_dirname out = []"
proof -
  assume "CHR ''/'' \<notin> set out"
  then have tw: "takeWhile (\<lambda>c. c \<noteq> CHR ''/'') (rev out) = rev out"
    by (intro takeWhile_eq_all_conv [THEN iffD2]) auto
  have "after_last_sep out = 0"
    unfolding after_last_sep_def tw by simp
  then show ?thesis
    by (simp add: os_path_dirname_def)
qed

lemma makedirs_empty: "os_makedirs fs [] = Inl (FileNotFoundError [])"
  by (simp add: os_makedirs_def resolve_def)

lemma counted_sum_array:
  "count (main_loop cd fs folder file_list) \<noteq> 0 \<Longrightarrow>
     \<exists>s. sum_array (main_loop cd fs folder file_list) = Some s"
proof -
  assume "count (main_loop cd fs folder file_list) \<noteq> 0"
  then obtain ref where "reference_size cd fs folder (sort file_list) = Some ref"
    by (auto simp: count_zero_iff)
  from main_loop_some [OF this] show ?thesis by simp
qed

lemma resolve_cwd: "cwd fs' = cwd fs \<Longrightarrow> resolve fs' s = resolve fs s"
  by (simp add: resolve_def)

lemma os_makedirs_cwd: "os_makedirs fs name = Inr fs' \<Longrightarrow> cwd fs' = cwd fs"
  by (auto simp: os_makedirs_def split: option.splits dest: mkdirs_cwd)

lemma write_file_ok:
  assumes "write_file fs name b = Inr fs'"
  shows "\<exists>p. resolve fs name = Some p \<and> lookup fs' p = Some (File b) \<and> cwd fs' = cwd fs"
proof -
  from assms obtain p where p: "resolve fs name = Some p" "\<not> is_dir fs p"
    and fs': "fs' = fs\<lparr>nodes := AList.update p (File b) (nodes fs)\<rparr>"
    by (auto simp: write_file_def split: option.splits if_splits node.splits)
  from p(2) have "p \<noteq> []"
    by (auto simp: is_dir_def lookup_def)
  then have "lookup fs' p = Some (File b)"
    by (simp add: fs' lookup_def update_conv')
  with p(1) fs' show ?thesis by simp
qed

lemma summary_skipped:
  "filter summary_line (map (\<lambda>(f, e). SkippedFile f e) es) = map (\<lambda>(f, e). SkippedFile f e) es"
  by (induction es) auto

lemma summary_lines_report: "summary_lines (report fs out st) = report fs out st"
  by (auto simp: summary_lines_def report_def summary_skipped split: list.splits)

lemma Resized_in_report: "Resized k \<in> set (report fs out st) \<longleftrightarrow> k = resize_count st"
  by (auto simp: report_def split: list.splits)

lemma Succeeded_in_report: "Succeeded k \<in> set (report fs out st) \<longleftrightarrow> k = count st"
  by (auto simp: report_def split: list.splits)

lemma finish_ok:
  assumes "finish cd fs out st = (None, fs', printed)"
  shows "\<exists>s b p. sum_array st = Some s \<and>
      encode cd out (kwargs_for out) (fromarray (average_array s (count st))) = Inr b \<and>
      resolve fs out = Some p \<and> lookup fs' p = Some (File b) \<and>
      printed = stdout st @ report fs' out st"
proof -
  from assms obtain s fs1 where s: "sum_array st = Some s"
    and mk: "os_makedirs fs (os_path_dirname out) = Inr fs1"
    and sv: "pil_save cd fs1 out (kwargs_for out) (fromarray (average_array s (count st))) = Inr fs'"
    and pr: "printed = stdout st @ report fs' out st"
    by (auto simp: finish_def Let_def split: option.splits sum.splits)
  from sv obtain b where b: "encode cd out (kwargs_for out) (fromarray (average_array s (count st))) = Inr b"
    and w: "write_file fs1 out b = Inr fs'"
    by (auto simp: pil_save_def split: sum.splits)
  from write_file_ok [OF w] obtain p where p: "resolve fs1 out = Some p" "lookup fs' p = Some (File b)"
    by blast
  have "resolve fs out = Some p"
    using resolve_cwd [OF os_makedirs_cwd [OF mk], of out] p(1) by simp
  with s b pr p(2) show ?thesis
    by blast
qed

lemma run_ok:
  assumes "compute_average_image cd fs folder out = (None, fs', printed)"
  shows "count (main_loop cd fs folder (file_list_of fs folder)) \<noteq> 0 \<and>
     finish cd fs out (main_loop cd fs folder (file_list_of fs folder)) = (None, fs', printed)"
  using assms by (auto simp: run_cases split: if_splits)

lemma fromarray_average:
  "fromarray (average_array \<lparr>shape = shape_of ref, item = f\<rparr> n) =
     \<lparr>img_size = ref, getdata = (\<lambda>i. astype_uint8 (np_clip (f i / real n) 0 255))\<rparr>"
  by (simp add: fromarray_def average_array_def shape_of_def)

lemma run_written:
  assumes "compute_average_image cd fs folder out = (None, fs', printed)"
  shows "\<exists>ref b p. reference_size cd fs folder (sort (file_list_of fs folder)) = Some ref \<and>
      encode cd out (kwargs_for out)
        \<lparr>img_size = ref,
         getdata = (\<lambda>i. astype_uint8 (np_clip
           (pixel_sum (processed cd fs folder ref (sort (file_list_of fs folder))) i /
            real (length (processed cd fs folder ref (sort (file_list_of fs folder))))) 0 255))\<rparr>
        = Inr b \<and>
      resolve fs out = Some p \<and> lookup fs' p = Some (File b) \<and>
      summary_lines printed =
        report fs' out (main_loop cd fs folder (file_list_of fs folder))"
proof -
  let ?st = "main_loop cd fs folder (file_list_of fs folder)"
  from run_ok [OF assms] have c: "count ?st \<noteq> 0" and f: "finish cd fs out ?st = (None, fs', printed)"
    by simp_all
  from c obtain ref where ref: "reference_size cd fs folder (sort (file_list_of fs folder)) = Some ref"
    by (auto simp: count_zero_iff)
  note ml = main_loop_some [OF ref]
  from finish_ok [OF f] obtain s b p where s: "sum_array ?st = Some s"
    and b: "encode cd out (kwargs_for out) (fromarray (average_array s (count ?st))) = Inr b"
    and p: "resolve fs out = Some p" "lookup fs' p = Some (File b)"
    and pr: "printed = stdout ?st @ report fs' out ?st"
    by blast
  from s ml have s': "s = \<lparr>shape = shape_of ref,
      item = pixel_sum (processed cd fs folder ref (sort (file_list_of fs folder)))\<rparr>"
    by simp
  from ml have cnt: "count ?st = length (processed cd fs folder ref (sort (file_list_of fs folder)))"
    by simp
  from ml have "summary_lines (stdout ?st) = []" by simp
  then have sm: "summary_lines printed = report fs' out ?st"
    using summary_lines_report [of fs' out ?st]
    by (simp add: pr summary_lines_def)
  from b show ?thesis
    using ref p sm unfolding s' cnt fromarray_average by blast
qed

text \<open>When \<open>os.makedirs\<close> returns, the path it was given is a directory.\<close>

lemma mkdirs_is_dir:
  "mkdirs fs name pre cs = Inr fs' \<Longrightarrow> is_dir fs pre \<Longrightarrow> is_dir fs' (pre @ cs)"
proof (induction cs arbitrary: fs pre)
  case Nil
  then show ?case by simp
next
  case (Cons c cs)
  show ?case
  proof (cases "lookup fs (pre @ [c])")
    case None
    let ?fs1 = "fs\<lparr>nodes := nodes fs @ [(pre @ [c], Dir)]\<rparr>"
    from None have "is_dir ?fs1 (pre @ [c])"
      by (simp add: is_dir_def lookup_def map_add_def)
    moreover from Cons.prems(1) None have "mkdirs ?fs1 name (pre @ [c]) cs = Inr fs'"
      by simp
    ultimately show ?thesis
      using Cons.IH [of ?fs1 "pre @ [c]"] by simp
  next
    case (Some n)
    with Cons.prems(1) have n: "n = Dir" and m: "mkdirs fs name (pre @ [c]) cs = Inr fs'"
      by (cases n; simp)+
    from Some n have "is_dir fs (pre @ [c])"
      by (simp add: is_dir_def)
    with Cons.IH [OF m] show ?thesis by simp
  qed
qed

lemma makedirs_ok: "os_makedirs fs d = Inr fs' \<Longrightarrow> os_path_isdir fs' d"
proof -
  assume a: "os_makedirs fs d = Inr fs'"
  then obtain p where p: "resolve fs d = Some p" and m: "mkdirs fs d [] p = Inr fs'"
    by (auto simp: os_makedirs_def split: option.splits)
  have "is_dir fs []" by (simp add: is_dir_def lookup_def)
  from mkdirs_is_dir [OF m this] have "is_dir fs' p" by simp
  moreover have "resolve fs' d = Some p"
    using resolve_cwd [OF mkdirs_cwd [OF m], of d] p by simp
  ultimately show ?thesis
    by (simp add: os_path_isdir_def)
qed

subsection \<open>The arithmetic of the average\<close>

lemma astype_nat:
  "n < 256 \<Longrightarrow> astype_uint8 (np_clip (real n) 0 255) = (word_of_nat n :: 8 word)"
  by (simp add: astype_uint8_def np_clip_def)

lemma astype_sample: "astype_uint8 (np_clip (real (unat (w :: 8 word))) 0 255) = w"
proof -
  have "unat w < 256"
    using unsigned_less [of w, where ?'a = nat] by simp
  from astype_nat [OF this] show ?thesis
    by simp
qed

lemma astype_unsigned: "astype_uint8 (np_clip (unsigned (w :: 8 word)) 0 255) = w"
  using astype_sample [of w] by simp

lemma pixel_sum_replicate:
  "pixel_sum (replicate N img) i = real N * real (unat (getdata img i))"
  by (induction N) (simp_all add: pixel_sum_Nil pixel_sum_Cons algebra_simps)

lemma average_of_copies:
  "0 < N \<Longrightarrow>
     astype_uint8 (np_clip (pixel_sum (replicate N img) i / real N) 0 255) = getdata img i"
  by (simp add: pixel_sum_replicate astype_unsigned)

lemma reference_size_decodable:
  "reference_size cd fs folder names =
     (case decodable cd fs folder names of [] \<Rightarrow> None | img # imgs \<Rightarrow> Some (img_size img))"
  by (induction names) (simp_all add: decodable_def split: sum.splits)

lemma decodable_Cons:
  "decodable cd fs folder (n # ns) =
     (case decoded cd fs folder n of Inr img \<Rightarrow> [img] | Inl e \<Rightarrow> []) @ decodable cd fs folder ns"
  by (simp add: decodable_def)

lemma resized_Cons:
  "resized cd fs folder ref (n # ns) =
     (if needs_resize cd fs folder ref n \<and> succeeds cd fs folder ref n then [n] else []) @
     resized cd fs folder ref ns"
  by (simp add: resized_def)

lemma processed_same_size:
  "\<forall>img \<in> set (decodable cd fs folder names). img_size img = ref \<Longrightarrow>
     processed cd fs folder ref names = decodable cd fs folder names \<and>
     resized cd fs folder ref names = []"
proof (induction names)
  case Nil
  then show ?case by (simp add: decodable_def processed_def resized_def)
next
  case (Cons n ns)
  show ?case
  proof (cases "decoded cd fs folder n")
    case (Inl e)
    with Cons show ?thesis
      by (simp add: decodable_Cons processed_Cons resized_Cons conformed_def needs_resize_def)
  next
    case (Inr img)
    with Cons.prems have "img_size img = ref"
      by (simp add: decodable_Cons)
    with Cons Inr show ?thesis
      by (simp add: decodable_Cons processed_Cons resized_Cons conformed_def needs_resize_def)
  qed
qed

lemma expected_of_copies:
  assumes "decodable cd fs folder names = replicate N img" "0 < N"
  shows "reference_size cd fs folder names = Some (img_size img) \<and>
     processed cd fs folder (img_size img) names = replicate N img \<and>
     resized cd fs folder (img_size img) names = [] \<and>
     expected_image cd fs folder names = Some img"
proof -
  from assms obtain M where N: "N = Suc M" by (cases N) auto
  have r: "reference_size cd fs folder names = Some (img_size img)"
    by (simp add: reference_size_decodable assms(1) N)
  have "\<forall>x \<in> set (decodable cd fs folder names). img_size x = img_size img"
    by (simp add: assms(1))
  from processed_same_size [OF this] assms(1)
  have p: "processed cd fs folder (img_size img) names = replicate N img"
    and z: "resized cd fs folder (img_size img) names = []"
    by simp_all
  have "expected_image cd fs folder names = Some img"
    using assms(2) by (simp add: expected_image_def r p pixel_sum_replicate astype_unsigned)
  with r p z show ?thesis by simp
qed

lemma Resized_printed:
  "Resized k \<in> set printed \<longleftrightarrow> Resized k \<in> set (summary_lines printed)"
  by (simp add: summary_lines_def)

lemma run_written_expected:
  assumes "compute_average_image cd fs folder out = (None, fs', printed)"
  shows "\<exists>ref img b p.
      reference_size cd fs folder (sort (file_list_of fs folder)) = Some ref \<and>
      expected_image cd fs folder (sort (file_list_of fs folder)) = Some img \<and>
      encode cd out (kwargs_for out) img = Inr b \<and>
      resolve fs out = Some p \<and> lookup fs' p = Some (File b) \<and>
      (\<forall>k. Resized k \<in> set printed \<longleftrightarrow>
        k = length (resized cd fs folder ref (sort (file_list_of fs folder))))"
proof -
  from run_written [OF assms] obtain ref b p
    where ref: "reference_size cd fs folder (sort (file_list_of fs folder)) = Some ref"
      and e: "encode cd out (kwargs_for out)
        \<lparr>img_size = ref,
         getdata = (\<lambda>i. astype_uint8 (np_clip
           (pixel_sum (processed cd fs folder ref (sort (file_list_of fs folder))) i /
            real (length (processed cd fs folder ref (sort (file_list_of fs folder))))) 0 255))\<rparr>
        = Inr b"
      and p: "resolve fs out = Some p" "lookup fs' p = Some (File b)"
      and s: "summary_lines printed =
        report fs' out (main_loop cd fs folder (file_list_of fs folder))"
    by blast
  from main_loop_some [OF ref]
  have rc: "resize_count (main_loop cd fs folder (file_list_of fs folder)) =
      length (resized cd fs folder ref (sort (file_list_of fs folder)))"
    by simp
  have "Resized k \<in> set printed \<longleftrightarrow>
        k = length (resized cd fs folder ref (sort (file_list_of fs folder)))" for k
    using Resized_printed [of k printed] by (simp add: s Resized_in_report rc)
  then have "\<forall>k. Resized k \<in> set printed \<longleftrightarrow>
        k = length (resized cd fs folder ref (sort (file_list_of fs folder)))"
    by blast
  with ref e p show ?thesis
    by (simp add: expected_image_def Let_def)
qed

lemma try_block_same_size:
  assumes "pil_open_rgb cd fs filepath = Inr img" "target_size st = Some (img_size img)"
  shows "try_block cd fs filepath st = accumulate img st \<and>
     resize_count (fst (accumulate img st)) = resize_count st"
  using assms
  by (auto simp: try_block_def accumulate_def split: sum.splits)

lemma uint_astype_clip: "uint (astype_uint8 (np_clip x 0 255)) = \<lfloor>np_clip x 0 255\<rfloor>"
proof -
  have b: "0 \<le> np_clip x 0 255" "np_clip x 0 255 \<le> 255"
    by (simp_all add: np_clip_def)
  then have "0 \<le> \<lfloor>np_clip x 0 255\<rfloor>" "\<lfloor>np_clip x 0 255\<rfloor> \<le> 255"
    by (simp_all add: floor_le_iff le_floor_iff)
  then have "uint (word_of_int \<lfloor>np_clip x 0 255\<rfloor> :: 8 word) = \<lfloor>np_clip x 0 255\<rfloor>"
    by (simp add: uint_word_of_int take_bit_int_eq_self)
  with b(1) show ?thesis
    by (simp add: astype_uint8_def)
qed

subsection \<open>Evaluating the model\<close>

lemmas model_defs =
  compute_average_image_def finish_def main_loop_def body_def try_block_def accumulate_def
  init_def file_list_of_def report_def kwargs_for_def
  pil_save_def write_file_def os_makedirs_def pil_open_rgb_def pil_resize_def
  np_iadd_def np_array_def np_zeros_def shape_of_def average_array_def fromarray_def
  astype_uint8_def np_clip_def
  os_listdir_def children_def os_path_isdir_def is_dir_def lookup_def resolve_def
  os_path_join_def os_path_dirname_def os_path_splitext_ext_def after_last_sep_def rstrip_sep_def
  endswith_any_def endswith_def lower_def lower_char_def valid_extensions_def
  example_codec_def flat_def

lemma mixed_count:
  "count (main_loop example_codec fs_mixed ''images'' (file_list_of fs_mixed ''images'')) = 3"
  by code_simp

lemma mixed_errors:
  "errors (main_loop example_codec fs_mixed ''images'' (file_list_of fs_mixed ''images'')) =
     [(''b.png'', CodecError ''truncated''), (''d.png'', CodecError ''cannot identify'')]"
  by code_simp

lemma mixed_run:
  "compute_average_image example_codec fs_mixed ''images'' ''out/avg.png'' =
     (None,
      fs_mixed\<lparr>nodes := nodes fs_mixed @
        [([''out''], Dir), ([''out'', ''avg.png''], File (Inr (flat (2, 2) 20)))]\<rparr>,
      [Found 5, Progress 1 5 ''a.png'', Baseline (2, 2), Progress 2 5 ''b.png'',
       Skip ''b.png'' (CodecError ''truncated''), Progress 3 5 ''c.png'',
       Progress 4 5 ''d.png'', Skip ''d.png'' (CodecError ''cannot identify''),
       Progress 5 5 ''e.png'', Done, Succeeded 3, Resized 0, OutputSize (Some (2, 2)),
       Elapsed, SkippedFiles 2, SkippedFile ''b.png'' (CodecError ''truncated''),
       SkippedFile ''d.png'' (CodecError ''cannot identify''),
       SavedTo (Some [''out'', ''avg.png''])])"
  by (simp add: model_defs fs_mixed_def Let_def)

lemma corrupt_run:
  "compute_average_image example_codec fs_corrupt ''./images'' ''out/avg.png'' =
     (Some (ValueError NothingLoaded), fs_corrupt,
      [Found 2, Progress 1 2 ''x.JPG'', Skip ''x.JPG'' (CodecError ''cannot identify''),
       Progress 2 2 ''y.jpg'', Skip ''y.jpg'' (CodecError ''truncated'')])"
  by (simp add: model_defs fs_corrupt_def Let_def)

lemma missing_run:
  "compute_average_image example_codec fs_corrupt ''images/raw'' ''out/avg.png'' =
     (Some (ValueError (FolderMissing ''images/raw'')), fs_corrupt, [])"
  by (simp add: model_defs fs_corrupt_def Let_def)

lemma no_files_run:
  "compute_average_image example_codec fs_corrupt ''/home'' ''out/avg.png'' =
     (Some (ValueError NoSupportedFiles), fs_corrupt, [])"
  by (simp add: model_defs fs_corrupt_def Let_def)

lemma blocked_run:
  "compute_average_image example_codec fs_mixed ''images'' ''images/a.png/avg.png'' =
     (Some (FileExistsError ''images/a.png''), fs_mixed,
      [Found 5, Progress 1 5 ''a.png'', Baseline (2, 2), Progress 2 5 ''b.png'',
       Skip ''b.png'' (CodecError ''truncated''), Progress 3 5 ''c.png'',
       Progress 4 5 ''d.png'', Skip ''d.png'' (CodecError ''cannot identify''),
       Progress 5 5 ''e.png''])"
  by (simp add: model_defs fs_mixed_def Let_def)

lemma mixed_isdir: "os_path_isdir fs_mixed ''images''"
  by code_simp

lemma mixed_list:
  "file_list_of fs_mixed ''images'' = [''c.png'', ''a.png'', ''b.png'', ''e.png'', ''d.png'']"
  by code_simp

lemma corrupt_isdir: "os_path_isdir fs_corrupt ''./images''"
  by code_simp

lemma corrupt_list: "file_list_of fs_corrupt ''./images'' = [''y.jpg'', ''x.JPG'']"
  by code_simp

lemma corrupt_decoded:
  "decoded example_codec fs_corrupt ''./images'' ''y.jpg'' = Inl (CodecError ''truncated'')"
  "decoded example_codec fs_corrupt ''./images'' ''x.JPG'' = Inl (CodecError ''cannot identify'')"
  by (simp_all add: decoded_def model_defs fs_corrupt_def)

lemma mixed_decoded_a:
  "decoded example_codec fs_mixed ''images'' ''a.png'' = Inr (flat (2, 2) 10)"
  by (simp add: decoded_def model_defs fs_mixed_def)

lemma nested_list: "file_list_of fs_nested ''images'' = [''a.png'', ''sub.jpg'']"
  by code_simp

lemma nested_resolve: "resolve fs_nested ''images'' = Some [''images'']"
  by code_simp

lemma mixed_expected:
  "expected_image example_codec fs_mixed ''images'' (sort (file_list_of fs_mixed ''images'')) =
     Some (flat (2, 2) 20)"
  by (simp add: mixed_list expected_image_def processed_def conformed_def decoded_def pixel_sum_def
      model_defs fs_mixed_def Let_def)

lemma single_ok:
  "fst (compute_average_image example_codec fs_single ''images'' ''out/avg.png'') = None"
  by code_simp

lemma single_list: "sort (file_list_of fs_single ''images'') = [''broken.bmp'', ''only.tiff'']"
  by code_simp

lemma single_decodable:
  "decodable example_codec fs_single ''images'' (sort (file_list_of fs_single ''images'')) =
     [gradient (3, 2)]"
  unfolding single_list
  by (simp add: decodable_def decoded_def model_defs fs_single_def)

lemma single_resolve: "resolve fs_single ''out/avg.png'' = Some [''out'', ''avg.png'']"
  by code_simp

lemma copies_ok:
  "fst (compute_average_image example_codec fs_copies ''images'' ''out/avg.png'') = None"
  by code_simp

lemma copies_list: "sort (file_list_of fs_copies ''images'') = [''1.png'', ''2.png'', ''3.png'']"
  by code_simp

lemma copies_decodable:
  "decodable example_codec fs_copies ''images'' (sort (file_list_of fs_copies ''images'')) =
     replicate 3 (gradient (3, 2))"
  unfolding copies_list
  by (simp add: decodable_def decoded_def model_defs fs_copies_def numeral_3_eq_3)

lemma copies_resolve: "resolve fs_copies ''out/avg.png'' = Some [''out'', ''avg.png'']"
  by code_simp

lemma sizes_run:
  "compute_average_image example_codec fs_sizes ''images'' ''out/avg.jpg'' =
     (None,
      fs_sizes\<lparr>nodes := nodes fs_sizes @
        [([''out''], Dir), ([''out'', ''avg.jpg''], File (Inr (flat (2, 2) 23)))]\<rparr>,
      [Found 4, Progress 1 4 ''a.png'', Baseline (2, 2), Progress 2 4 ''b.png'',
       Progress 3 4 ''c.png'', Progress 4 4 ''d.png'', Skip ''d.png'' (CodecError ''truncated''),
       Done, Succeeded 3, Resized 1, OutputSize (Some (2, 2)), Elapsed, SkippedFiles 1,
       SkippedFile ''d.png'' (CodecError ''truncated''),
       SavedTo (Some [''out'', ''avg.jpg''])])"
  by (simp add: model_defs fs_sizes_def Let_def)

lemma sizes_list: "sort (file_list_of fs_sizes ''images'') = [''a.png'', ''b.png'', ''c.png'', ''d.png'']"
  by code_simp

lemma sizes_reference:
  "reference_size example_codec fs_sizes ''images'' (sort (file_list_of fs_sizes ''images'')) =
     Some (2, 2)"
  unfolding sizes_list
  by (simp add: decoded_def model_defs fs_sizes_def)

lemma sizes_resized:
  "filter (\<lambda>n. needs_resize example_codec fs_sizes ''images'' (2, 2) n \<and>
       succeeds example_codec fs_sizes ''images'' (2, 2) n)
     (sort (file_list_of fs_sizes ''images'')) = [''b.png'']"
  unfolding sizes_list
  by (simp add: needs_resize_def succeeds_def conformed_def decoded_def model_defs fs_sizes_def)

lemma sizes_open_c:
  "pil_open_rgb example_codec fs_sizes ''images/c.png'' = Inr (flat (2, 2) 20)"
  by (simp add: model_defs fs_sizes_def)

lemma tenth_run:
  "compute_average_image example_codec fs_tenth ''images'' ''out/avg.png'' =
     (None,
      fs_tenth\<lparr>nodes := nodes fs_tenth @
        [([''out''], Dir), ([''out'', ''avg.png''], File (Inr (flat (1, 1) 0)))]\<rparr>,
      [Found 10, Progress 1 10 ''0.png'', Baseline (1, 1), Progress 2 10 ''1.png'',
       Progress 3 10 ''2.png'', Progress 4 10 ''3.png'', Progress 5 10 ''4.png'',
       Progress 6 10 ''5.png'', Progress 7 10 ''6.png'', Progress 8 10 ''7.png'',
       Progress 9 10 ''8.png'', Progress 10 10 ''9.png'', Done, Succeeded 10, Resized 0,
       OutputSize (Some (1, 1)), Elapsed, SavedTo (Some [''out'', ''avg.png''])])"
  by (simp add: model_defs fs_tenth_def Let_def)

lemma tenth_sum:
  "sum_array (main_loop example_codec fs_tenth ''images'' (file_list_of fs_tenth ''images'')) =
     Some \<lparr>shape = (1, 1, 3), item = (\<lambda>i. 9)\<rparr>"
  by (simp add: model_defs fs_tenth_def Let_def)

lemma tenth_count:
  "count (main_loop example_codec fs_tenth ''images'' (file_list_of fs_tenth ''images'')) = 10"
  by code_simp

section \<open>The claims\<close>

text \<open>
  C1. When the call returns without raising, the file at the output path holds the
  encoding of this raster: the element-wise sum of the samples of every image that was
  processed successfully (decoded, converted to RGB, resampled to the reference size
  when its size differs), divided by the number of those images, clipped to [0, 255]
  and converted to 8-bit samples.
\<close>

theorem C1_written_raster:
  assumes "compute_average_image cd fs folder out = (None, fs', printed)"
  shows "\<exists>img b p. expected_image cd fs folder (sort (file_list_of fs folder)) = Some img \<and>
      encode cd out (kwargs_for out) img = Inr b \<and>
      resolve fs out = Some p \<and> lookup fs' p = Some (File b)"
proof -
  from run_written [OF assms] obtain ref b p
    where "reference_size cd fs folder (sort (file_list_of fs folder)) = Some ref"
      and "encode cd out (kwargs_for out)
        \<lparr>img_size = ref,
         getdata = (\<lambda>i. astype_uint8 (np_clip
           (pixel_sum (processed cd fs folder ref (sort (file_list_of fs folder))) i /
            real (length (processed cd fs folder ref (sort (file_list_of fs folder))))) 0 255))\<rparr>
        = Inr b"
      and "resolve fs out = Some p" "lookup fs' p = Some (File b)"
    by blast
  then show ?thesis
    by (simp add: expected_image_def Let_def)
qed

text \<open>The run on \<open>fs_mixed\<close>: the three valid images have samples 10, 20 and 30, and the
  file written holds the image with every sample 20.\<close>

theorem C1_written_raster_witness:
  "compute_average_image example_codec fs_mixed ''images'' ''out/avg.png'' =
     (None,
      fs_mixed\<lparr>nodes := nodes fs_mixed @
        [([''out''], Dir), ([''out'', ''avg.png''], File (Inr (flat (2, 2) 20)))]\<rparr>,
      [Found 5, Progress 1 5 ''a.png'', Baseline (2, 2), Progress 2 5 ''b.png'',
       Skip ''b.png'' (CodecError ''truncated''), Progress 3 5 ''c.png'',
       Progress 4 5 ''d.png'', Skip ''d.png'' (CodecError ''cannot identify''),
       Progress 5 5 ''e.png'', Done, Succeeded 3, Resized 0, OutputSize (Some (2, 2)),
       Elapsed, SkippedFiles 2, SkippedFile ''b.png'' (CodecError ''truncated''),
       SkippedFile ''d.png'' (CodecError ''cannot identify''),
       SavedTo (Some [''out'', ''avg.png''])]) \<and>
   expected_image example_codec fs_mixed ''images'' (sort (file_list_of fs_mixed ''images'')) =
     Some (flat (2, 2) 20) \<and>
   (\<exists>b. encode example_codec ''out/avg.png'' (kwargs_for ''out/avg.png'') (flat (2, 2) 20) = Inr b \<and>
     lookup (fs_mixed\<lparr>nodes := nodes fs_mixed @
        [([''out''], Dir), ([''out'', ''avg.png''], File (Inr (flat (2, 2) 20)))]\<rparr>)
       [''out'', ''avg.png''] = Some (File b))"
proof -
  have r: "resolve fs_mixed ''out/avg.png'' = Some [''out'', ''avg.png'']"
    by code_simp
  from C1_written_raster [OF mixed_run]
  have "\<exists>b. encode example_codec ''out/avg.png'' (kwargs_for ''out/avg.png'') (flat (2, 2) 20) = Inr b \<and>
     lookup (fs_mixed\<lparr>nodes := nodes fs_mixed @
        [([''out''], Dir), ([''out'', ''avg.png''], File (Inr (flat (2, 2) 20)))]\<rparr>)
       [''out'', ''avg.png''] = Some (File b)"
    unfolding mixed_expected r by auto
  then show ?thesis
    using mixed_run mixed_expected by simp
qed

text \<open>
  C2, amended. The function raises one of its own three errors in exactly these cases:
  the folder is not an existing directory, and then nothing has been printed or
  processed; otherwise no entry has a supported extension, and then nothing has been
  printed or processed either; otherwise every matched file fails to decode, and then
  the error is raised after the loop, which has gone through every file in sorted
  order. As soon as one matched file decodes, the run goes on to the output phase
  whatever the other files do; there it can still end with an error of
  \<open>os.makedirs\<close> or of the encoder, never with one of the three.
\<close>

theorem C2_fatal_cases:
  assumes "compute_average_image cd fs folder out = (e, fs', printed)"
  shows
    "((\<exists>x. e = Some (ValueError (FolderMissing x))) \<longleftrightarrow> \<not> os_path_isdir fs folder) \<and>
     (e = Some (ValueError NoSupportedFiles) \<longleftrightarrow>
        os_path_isdir fs folder \<and> file_list_of fs folder = []) \<and>
     (e = Some (ValueError NothingLoaded) \<longleftrightarrow>
        os_path_isdir fs folder \<and> file_list_of fs folder \<noteq> [] \<and>
        (\<forall>n \<in> set (file_list_of fs folder). \<exists>x. decoded cd fs folder n = Inl x)) \<and>
     (\<not> os_path_isdir fs folder \<or> file_list_of fs folder = [] \<longrightarrow> printed = []) \<and>
     (e = Some (ValueError NothingLoaded) \<longrightarrow>
        printed = stdout (main_loop cd fs folder (file_list_of fs folder)) \<and>
        progress_names printed = sort (file_list_of fs folder)) \<and>
     (os_path_isdir fs folder \<and>
      (\<exists>n \<in> set (file_list_of fs folder). \<exists>img. decoded cd fs folder n = Inr img) \<longrightarrow>
        (e, fs', printed) = finish cd fs out (main_loop cd fs folder (file_list_of fs folder)) \<and>
        (\<forall>m. e \<noteq> Some (ValueError m)))"
proof -
  let ?fl = "file_list_of fs folder"
  let ?st = "main_loop cd fs folder ?fl"
  consider (a) "\<not> os_path_isdir fs folder"
    | (b) "os_path_isdir fs folder" "?fl = []"
    | (c) "os_path_isdir fs folder" "?fl \<noteq> []" "count ?st = 0"
    | (d) "os_path_isdir fs folder" "?fl \<noteq> []" "count ?st \<noteq> 0"
    by blast
  then show ?thesis
  proof cases
    case a
    with assms show ?thesis by (auto simp: run_cases)
  next
    case b
    with assms show ?thesis by (auto simp: run_cases)
  next
    case c
    from c(3) have af: "\<forall>n \<in> set ?fl. \<exists>x. decoded cd fs folder n = Inl x"
      by (simp add: all_fail_iff)
    from assms c have r: "e = Some (ValueError NothingLoaded)" "printed = stdout ?st"
      by (auto simp: run_cases)
    show ?thesis
      using c(1,2) af r by (auto simp: progress_names_sorted)
  next
    case d
    from d(3) have af: "\<not> (\<forall>n \<in> set ?fl. \<exists>x. decoded cd fs folder n = Inl x)"
      by (simp add: all_fail_iff)
    from assms d have r: "finish cd fs out ?st = (e, fs', printed)"
      by (simp add: run_cases)
    then have nv: "\<forall>m. e \<noteq> Some (ValueError m)"
      by (cases e) (auto dest: finish_exn)
    show ?thesis
      using d(1,2) af r nv by auto
  qed
qed

text \<open>The three kinds of run at concrete inputs: every file corrupt, the folder missing,
  and a folder where some files are corrupt and the run still reaches the output phase.\<close>

theorem C2_fatal_cases_witness:
  "compute_average_image example_codec fs_corrupt ''./images'' ''out/avg.png'' =
     (Some (ValueError NothingLoaded), fs_corrupt,
      [Found 2, Progress 1 2 ''x.JPG'', Skip ''x.JPG'' (CodecError ''cannot identify''),
       Progress 2 2 ''y.jpg'', Skip ''y.jpg'' (CodecError ''truncated'')]) \<and>
   os_path_isdir fs_corrupt ''./images'' \<and>
   file_list_of fs_corrupt ''./images'' = [''y.jpg'', ''x.JPG''] \<and>
   decoded example_codec fs_corrupt ''./images'' ''y.jpg'' = Inl (CodecError ''truncated'') \<and>
   decoded example_codec fs_corrupt ''./images'' ''x.JPG'' = Inl (CodecError ''cannot identify'') \<and>
   progress_names
     [Found 2, Progress 1 2 ''x.JPG'', Skip ''x.JPG'' (CodecError ''cannot identify''),
      Progress 2 2 ''y.jpg'', Skip ''y.jpg'' (CodecError ''truncated'')] =
     sort (file_list_of fs_corrupt ''./images'') \<and>
   \<not> os_path_isdir fs_corrupt ''images/raw'' \<and>
   compute_average_image example_codec fs_corrupt ''images/raw'' ''out/avg.png'' =
     (Some (ValueError (FolderMissing ''images/raw'')), fs_corrupt, []) \<and>
   os_path_isdir fs_mixed ''images'' \<and>
   ''a.png'' \<in> set (file_list_of fs_mixed ''images'') \<and>
   decoded example_codec fs_mixed ''images'' ''a.png'' = Inr (flat (2, 2) 10) \<and>
   finish example_codec fs_mixed ''out/avg.png''
     (main_loop example_codec fs_mixed ''images'' (file_list_of fs_mixed ''images'')) =
     compute_average_image example_codec fs_mixed ''images'' ''out/avg.png'' \<and>
   fst (compute_average_image example_codec fs_mixed ''images'' ''out/avg.png'') = None"
proof -
  have a: "''a.png'' \<in> set (file_list_of fs_mixed ''images'')"
    by (simp add: mixed_list)
  have m: "\<not> os_path_isdir fs_corrupt ''images/raw''"
    by code_simp
  from C2_fatal_cases [OF corrupt_run]
  have p: "progress_names
     [Found 2, Progress 1 2 ''x.JPG'', Skip ''x.JPG'' (CodecError ''cannot identify''),
      Progress 2 2 ''y.jpg'', Skip ''y.jpg'' (CodecError ''truncated'')] =
     sort (file_list_of fs_corrupt ''./images'')"
    by blast
  from C2_fatal_cases [OF mixed_run] mixed_isdir a mixed_decoded_a
  have f: "finish example_codec fs_mixed ''out/avg.png''
     (main_loop example_codec fs_mixed ''images'' (file_list_of fs_mixed ''images'')) =
     compute_average_image example_codec fs_mixed ''images'' ''out/avg.png''"
    unfolding mixed_run by metis
  show ?thesis
    using p f m a
    by (simp add: corrupt_run corrupt_isdir corrupt_list corrupt_decoded missing_run
        mixed_isdir mixed_decoded_a mixed_run)
qed

text \<open>
  C2 as stated fails: the three cases are not the only fatal ones. In \<open>fs_mixed\<close> the
  folder exists, five files match and three images are loaded, and still the call ends
  with an error, because the parent of the output path is an existing regular file and
  \<open>os.makedirs\<close> raises.
\<close>

theorem C2_counterexample:
  "os_path_isdir fs_mixed ''images'' \<and>
   file_list_of fs_mixed ''images'' \<noteq> [] \<and>
   count (main_loop example_codec fs_mixed ''images'' (file_list_of fs_mixed ''images'')) = 3 \<and>
   fst (compute_average_image example_codec fs_mixed ''images'' ''images/a.png/avg.png'') =
     Some (FileExistsError ''images/a.png'')"
proof -
  have "file_list_of fs_mixed ''images'' \<noteq> []"
    by (simp add: mixed_list)
  then show ?thesis
    by (simp add: mixed_isdir mixed_count blocked_run)
qed

text \<open>
  C3. After the loop every matched file is in exactly one of the two tallies. A file is
  counted when its \<open>try\<close> block succeeds, and then its samples are in the sum once; every
  other file has one entry in the error log, in processing order. So the success count
  plus the length of the error log is the number of matched files. In the folder
  \<open>fs_mixed\<close>, with three valid images and two corrupt files, the count is 3, the error
  log has 2 entries, and the run writes the average of the three images.
\<close>

theorem C3_each_file_counted_or_logged:
  "count (main_loop cd fs folder file_list) =
     length (filter (counted cd fs folder (sort file_list)) (sort file_list)) \<and>
   map fst (errors (main_loop cd fs folder file_list)) =
     filter (\<lambda>n. \<not> counted cd fs folder (sort file_list) n) (sort file_list) \<and>
   count (main_loop cd fs folder file_list) + length (errors (main_loop cd fs folder file_list)) =
     length file_list \<and>
   sum_array (main_loop cd fs folder file_list) =
     (case reference_size cd fs folder (sort file_list) of
        None \<Rightarrow> None
      | Some ref \<Rightarrow>
          Some \<lparr>shape = shape_of ref,
                item = pixel_sum (processed cd fs folder ref (sort file_list))\<rparr>) \<and>
   count (main_loop example_codec fs_mixed ''images'' (file_list_of fs_mixed ''images'')) = 3 \<and>
   length (errors (main_loop example_codec fs_mixed ''images''
     (file_list_of fs_mixed ''images''))) = 2 \<and>
   (let (e, fs', printed) = compute_average_image example_codec fs_mixed ''images'' ''out/avg.png''
    in e = None \<and> lookup fs' [''out'', ''avg.png''] = Some (File (Inr (flat (2, 2) 20))))"
proof -
  have general:
    "count (main_loop cd fs folder file_list) =
       length (filter (counted cd fs folder (sort file_list)) (sort file_list)) \<and>
     map fst (errors (main_loop cd fs folder file_list)) =
       filter (\<lambda>n. \<not> counted cd fs folder (sort file_list) n) (sort file_list) \<and>
     count (main_loop cd fs folder file_list) +
       length (errors (main_loop cd fs folder file_list)) = length file_list \<and>
     sum_array (main_loop cd fs folder file_list) =
       (case reference_size cd fs folder (sort file_list) of
          None \<Rightarrow> None
        | Some ref \<Rightarrow>
            Some \<lparr>shape = shape_of ref,
                  item = pixel_sum (processed cd fs folder ref (sort file_list))\<rparr>)"
  proof (cases "reference_size cd fs folder (sort file_list)")
    case None
    have "length (map fst (skipped cd fs folder (0, 0) (sort file_list))) =
        length (sort file_list)"
      by (simp only: none_skipped_all [OF None])
    then have l: "length (skipped cd fs folder (0, 0) (sort file_list)) = length file_list"
      by simp
    from main_loop_none [OF None, of "(0, 0)"] None l none_skipped_all [OF None, of "(0, 0)"]
    show ?thesis
      by (simp add: counted_None)
  next
    case (Some ref)
    from main_loop_some [OF Some] Some
    show ?thesis
      using processed_plus_skipped [of cd fs folder ref "sort file_list"]
      by (simp add: counted_Some length_processed names_skipped)
  qed
  have inst:
    "(let (e, fs', printed) =
        compute_average_image example_codec fs_mixed ''images'' ''out/avg.png''
      in e = None \<and> lookup fs' [''out'', ''avg.png''] = Some (File (Inr (flat (2, 2) 20))))"
    unfolding mixed_run by (simp add: lookup_def fs_mixed_def)
  show ?thesis
    using general inst by (simp add: mixed_count mixed_errors)
qed

text \<open>
  C4, amended. A name is in the list of files to process if and only if it is the name
  of an entry directly inside the input folder, of any kind, and it ends, ignoring
  case, in one of the five extensions. The listing does not go into subdirectories.
  Whether the entry is a regular file is not looked at.
\<close>

theorem C4_selected_by_name:
  assumes "resolve fs folder = Some p"
  shows "n \<in> set (file_list_of fs folder) \<longleftrightarrow>
     (\<exists>node. (p @ [n], node) \<in> set (nodes fs)) \<and>
     (\<exists>ext \<in> set valid_extensions. endswith (lower n) ext)"
  using assms
  by (simp add: file_list_of_def os_listdir_def children_iff endswith_any_def list_ex_iff)

text \<open>In \<open>fs_nested\<close> the directory \<open>sub.jpg\<close> is selected, the image inside it is not, and
  neither is the text file.\<close>

theorem C4_selected_by_name_witness:
  "resolve fs_nested ''images'' = Some [''images''] \<and>
   ''sub.jpg'' \<in> set (file_list_of fs_nested ''images'') \<and>
   ([''images''] @ [''sub.jpg''], Dir) \<in> set (nodes fs_nested) \<and>
   endswith (lower ''sub.jpg'') ''.jpg'' \<and>
   ''deep.png'' \<notin> set (file_list_of fs_nested ''images'') \<and>
   ''notes.txt'' \<notin> set (file_list_of fs_nested ''images'')"
proof -
  have "([''images''] @ [''sub.jpg''], Dir) \<in> set (nodes fs_nested)"
    by (simp add: fs_nested_def)
  moreover have "endswith (lower ''sub.jpg'') ''.jpg''"
    by code_simp
  moreover have "''.jpg'' \<in> set valid_extensions"
    by (simp add: valid_extensions_def)
  ultimately have "''sub.jpg'' \<in> set (file_list_of fs_nested ''images'')"
    using C4_selected_by_name [OF nested_resolve, of "''sub.jpg''"] by blast
  moreover have "''deep.png'' \<notin> set (file_list_of fs_nested ''images'')"
    using C4_selected_by_name [OF nested_resolve, of "''deep.png''"]
    by (simp add: fs_nested_def)
  moreover have "''notes.txt'' \<notin> set (file_list_of fs_nested ''images'')"
    using C4_selected_by_name [OF nested_resolve, of "''notes.txt''"]
    by (simp add: valid_extensions_def endswith_def lower_def lower_char_def)
  ultimately show ?thesis
    using \<open>([''images''] @ [''sub.jpg''], Dir) \<in> set (nodes fs_nested)\<close>
      \<open>endswith (lower ''sub.jpg'') ''.jpg''\<close>
    by (simp add: nested_resolve)
qed

text \<open>
  C4 as stated fails: the selected entry \<open>sub.jpg\<close> of \<open>fs_nested\<close> is a directory, not a
  regular file.
\<close>

theorem C4_counterexample:
  "''sub.jpg'' \<in> set (file_list_of fs_nested ''images'') \<and>
   lookup fs_nested [''images'', ''sub.jpg''] = Some Dir"
  by (simp add: nested_list) (simp add: lookup_def fs_nested_def)

text \<open>
  C5. The claim asks that a bare file name as output path works. In the code it does
  not: \<open>os.path.dirname\<close> of a path without a separator is the empty string, on which
  \<open>os.makedirs\<close> raises \<open>FileNotFoundError\<close>. So every run that reaches the output phase
  with such a path ends with that error, after all the images have been processed, and
  writes nothing. (For a path with a directory part the directory is there once
  \<open>os.makedirs\<close> has returned, see \<open>makedirs_ok\<close>.)
\<close>

theorem C5_bare_filename_fails:
  assumes "CHR ''/'' \<notin> set out"
    and "os_path_isdir fs folder"
    and "file_list_of fs folder \<noteq> []"
    and "count (main_loop cd fs folder (file_list_of fs folder)) \<noteq> 0"
  shows "compute_average_image cd fs folder out =
     (Some (FileNotFoundError []), fs, stdout (main_loop cd fs folder (file_list_of fs folder)))"
proof -
  from counted_sum_array [OF assms(4)] obtain s
    where "sum_array (main_loop cd fs folder (file_list_of fs folder)) = Some s" ..
  then show ?thesis
    using assms
    by (simp add: run_cases finish_def dirname_bare makedirs_empty)
qed

text \<open>The run on \<open>fs_mixed\<close> with the output path \<open>avg.png\<close>.\<close>

theorem C5_bare_filename_fails_witness:
  "CHR ''/'' \<notin> set ''avg.png'' \<and>
   os_path_isdir fs_mixed ''images'' \<and>
   file_list_of fs_mixed ''images'' \<noteq> [] \<and>
   count (main_loop example_codec fs_mixed ''images'' (file_list_of fs_mixed ''images'')) = 3 \<and>
   compute_average_image example_codec fs_mixed ''images'' ''avg.png'' =
     (Some (FileNotFoundError []), fs_mixed,
      [Found 5, Progress 1 5 ''a.png'', Baseline (2, 2), Progress 2 5 ''b.png'',
       Skip ''b.png'' (CodecError ''truncated''), Progress 3 5 ''c.png'',
       Progress 4 5 ''d.png'', Skip ''d.png'' (CodecError ''cannot identify''),
       Progress 5 5 ''e.png''])"
proof -
  have a: "CHR ''/'' \<notin> set ''avg.png''" by simp
  have b: "file_list_of fs_mixed ''images'' \<noteq> []" by (simp add: mixed_list)
  have c: "count (main_loop example_codec fs_mixed ''images''
      (file_list_of fs_mixed ''images'')) \<noteq> 0"
    by (simp add: mixed_count)
  have d: "stdout (main_loop example_codec fs_mixed ''images''
      (file_list_of fs_mixed ''images'')) =
      [Found 5, Progress 1 5 ''a.png'', Baseline (2, 2), Progress 2 5 ''b.png'',
       Skip ''b.png'' (CodecError ''truncated''), Progress 3 5 ''c.png'',
       Progress 4 5 ''d.png'', Skip ''d.png'' (CodecError ''cannot identify''),
       Progress 5 5 ''e.png'']"
    by code_simp
  show ?thesis
    using C5_bare_filename_fails [OF a mixed_isdir b c] b
    by (simp add: mixed_isdir mixed_count d)
qed

text \<open>
  C6. If exactly one of the matched files decodes, and the call returns, then the file
  written holds the encoding of that image itself, as converted to RGB, and the resize
  count of the report is zero.
\<close>

theorem C6_single_image_identity:
  assumes "compute_average_image cd fs folder out = (None, fs', printed)"
    and "decodable cd fs folder (sort (file_list_of fs folder)) = [img]"
  shows "(\<exists>b p. encode cd out (kwargs_for out) img = Inr b \<and>
      resolve fs out = Some p \<and> lookup fs' p = Some (File b)) \<and>
    (\<forall>k. Resized k \<in> set printed \<longleftrightarrow> k = 0)"
proof -
  from assms(2) have d: "decodable cd fs folder (sort (file_list_of fs folder)) = replicate 1 img"
    by simp
  from expected_of_copies [OF d]
  have r: "reference_size cd fs folder (sort (file_list_of fs folder)) = Some (img_size img)"
    and z: "resized cd fs folder (img_size img) (sort (file_list_of fs folder)) = []"
    and x: "expected_image cd fs folder (sort (file_list_of fs folder)) = Some img"
    by simp_all
  from run_written_expected [OF assms(1)] obtain ref img' b p
    where "reference_size cd fs folder (sort (file_list_of fs folder)) = Some ref"
      and "expected_image cd fs folder (sort (file_list_of fs folder)) = Some img'"
      and w: "encode cd out (kwargs_for out) img' = Inr b" "resolve fs out = Some p"
        "lookup fs' p = Some (File b)"
      and k: "\<forall>k. Resized k \<in> set printed \<longleftrightarrow>
        k = length (resized cd fs folder ref (sort (file_list_of fs folder)))"
    by blast
  with r x have e: "ref = img_size img" "img' = img" by simp_all
  from w e have "\<exists>b p. encode cd out (kwargs_for out) img = Inr b \<and>
      resolve fs out = Some p \<and> lookup fs' p = Some (File b)"
    by blast
  moreover from k e z have "\<forall>k. Resized k \<in> set printed \<longleftrightarrow> k = 0"
    by simp
  ultimately show ?thesis ..
qed

text \<open>The run on \<open>fs_single\<close>: one image with varying samples beside a corrupt file.\<close>

theorem C6_single_image_identity_witness:
  "fst (compute_average_image example_codec fs_single ''images'' ''out/avg.png'') = None \<and>
   decodable example_codec fs_single ''images'' (sort (file_list_of fs_single ''images'')) =
     [gradient (3, 2)] \<and>
   lookup (fst (snd (compute_average_image example_codec fs_single ''images'' ''out/avg.png'')))
     [''out'', ''avg.png''] = Some (File (Inr (gradient (3, 2)))) \<and>
   Resized 0 \<in> set (snd (snd
     (compute_average_image example_codec fs_single ''images'' ''out/avg.png'')))"
proof -
  let ?r = "compute_average_image example_codec fs_single ''images'' ''out/avg.png''"
  have run: "?r = (None, fst (snd ?r), snd (snd ?r))"
    using single_ok by (cases ?r) simp
  from C6_single_image_identity [OF run single_decodable]
  obtain b p where "encode example_codec ''out/avg.png'' (kwargs_for ''out/avg.png'')
        (gradient (3, 2)) = Inr b"
      "resolve fs_single ''out/avg.png'' = Some p"
      "lookup (fst (snd ?r)) p = Some (File b)"
    and k: "\<forall>k. Resized k \<in> set (snd (snd ?r)) \<longleftrightarrow> k = 0"
    by blast
  then have "lookup (fst (snd ?r)) [''out'', ''avg.png''] = Some (File (Inr (gradient (3, 2))))"
    by (simp add: single_resolve example_codec_def)
  with k show ?thesis
    using single_ok single_decodable by simp
qed

text \<open>
  C7. If the images that decode are \<open>N\<close> copies of one image, \<open>N\<close> at least 1, and the call
  returns, then the file written holds the encoding of that image: the sum of \<open>N\<close>
  copies of a sample divided by \<open>N\<close>, clipped and converted, is the sample. (Sums and
  the quotient are exact in the model; in float64 they are as long as the sum stays
  below \<open>2 ^ 53\<close>.)
\<close>

theorem C7_copies_average_to_the_image:
  assumes "compute_average_image cd fs folder out = (None, fs', printed)"
    and "decodable cd fs folder (sort (file_list_of fs folder)) = replicate N img"
    and "1 \<le> N"
  shows "(\<exists>b p. encode cd out (kwargs_for out) img = Inr b \<and>
      resolve fs out = Some p \<and> lookup fs' p = Some (File b)) \<and>
    (\<forall>i. astype_uint8 (np_clip (pixel_sum (replicate N img) i / real N) 0 255) =
      getdata img i)"
proof -
  from assms(3) have N: "0 < N" by simp
  from expected_of_copies [OF assms(2) N]
  have x: "expected_image cd fs folder (sort (file_list_of fs folder)) = Some img"
    by simp
  from run_written_expected [OF assms(1)] obtain img' b p
    where "expected_image cd fs folder (sort (file_list_of fs folder)) = Some img'"
      and w: "encode cd out (kwargs_for out) img' = Inr b" "resolve fs out = Some p"
        "lookup fs' p = Some (File b)"
    by blast
  with x have "img' = img" by simp
  with w have "\<exists>b p. encode cd out (kwargs_for out) img = Inr b \<and>
      resolve fs out = Some p \<and> lookup fs' p = Some (File b)"
    by blast
  moreover have "\<forall>i. astype_uint8 (np_clip (pixel_sum (replicate N img) i / real N) 0 255) =
      getdata img i"
    using N by (simp only: average_of_copies) simp
  ultimately show ?thesis ..
qed

text \<open>The run on \<open>fs_copies\<close>, three copies of an image with varying samples.\<close>

theorem C7_copies_average_to_the_image_witness:
  "fst (compute_average_image example_codec fs_copies ''images'' ''out/avg.png'') = None \<and>
   decodable example_codec fs_copies ''images'' (sort (file_list_of fs_copies ''images'')) =
     replicate 3 (gradient (3, 2)) \<and>
   (1 :: nat) \<le> 3 \<and>
   lookup (fst (snd (compute_average_image example_codec fs_copies ''images'' ''out/avg.png'')))
     [''out'', ''avg.png''] = Some (File (Inr (gradient (3, 2)))) \<and>
   astype_uint8 (np_clip (pixel_sum (replicate 3 (gradient (3, 2))) (1, 2, 0) / real 3) 0 255) =
     getdata (gradient (3, 2)) (1, 2, 0)"
proof -
  let ?r = "compute_average_image example_codec fs_copies ''images'' ''out/avg.png''"
  have run: "?r = (None, fst (snd ?r), snd (snd ?r))"
    using copies_ok by (cases ?r) simp
  have n: "(1 :: nat) \<le> 3" by simp
  from C7_copies_average_to_the_image [OF run copies_decodable n]
  obtain b p where "encode example_codec ''out/avg.png'' (kwargs_for ''out/avg.png'')
        (gradient (3, 2)) = Inr b"
      "resolve fs_copies ''out/avg.png'' = Some p"
      "lookup (fst (snd ?r)) p = Some (File b)"
    and a: "\<forall>i. astype_uint8 (np_clip (pixel_sum (replicate 3 (gradient (3, 2))) i / real 3) 0 255) =
      getdata (gradient (3, 2)) i"
    by blast
  then have "lookup (fst (snd ?r)) [''out'', ''avg.png''] = Some (File (Inr (gradient (3, 2))))"
    by (simp add: copies_resolve example_codec_def)
  moreover from a
  have "astype_uint8 (np_clip (pixel_sum (replicate 3 (gradient (3, 2))) (1, 2, 0) / real 3) 0 255) =
     getdata (gradient (3, 2)) (1, 2, 0)"
    by blast
  ultimately show ?thesis
    using copies_ok copies_decodable by simp
qed

text \<open>
  C8. When the call returns, the resize count of the report is the number of files
  that decode to a size different from the reference size, the size of the first image
  that decoded, and are then processed successfully. An image whose size is the
  reference size goes straight to the accumulation: it is not resampled and the resize
  count stays as it was.
\<close>

theorem C8_resize_count:
  assumes "compute_average_image cd fs folder out = (None, fs', printed)"
  shows "\<exists>ref.
     reference_size cd fs folder (sort (file_list_of fs folder)) = Some ref \<and>
     resize_count (main_loop cd fs folder (file_list_of fs folder)) =
       length (filter (\<lambda>n. needs_resize cd fs folder ref n \<and> succeeds cd fs folder ref n)
         (sort (file_list_of fs folder))) \<and>
     (\<forall>k. Resized k \<in> set printed \<longleftrightarrow>
       k = length (filter (\<lambda>n. needs_resize cd fs folder ref n \<and> succeeds cd fs folder ref n)
         (sort (file_list_of fs folder)))) \<and>
     (\<forall>st filepath img.
        pil_open_rgb cd fs filepath = Inr img \<and> target_size st = Some (img_size img) \<longrightarrow>
        try_block cd fs filepath st = accumulate img st \<and>
        resize_count (fst (accumulate img st)) = resize_count st)"
proof -
  from run_written_expected [OF assms] obtain ref
    where ref: "reference_size cd fs folder (sort (file_list_of fs folder)) = Some ref"
      and k: "\<forall>k. Resized k \<in> set printed \<longleftrightarrow>
        k = length (resized cd fs folder ref (sort (file_list_of fs folder)))"
    by blast
  from main_loop_some [OF ref]
  have rc: "resize_count (main_loop cd fs folder (file_list_of fs folder)) =
      length (resized cd fs folder ref (sort (file_list_of fs folder)))"
    by simp
  have t: "\<forall>st filepath img.
        pil_open_rgb cd fs filepath = Inr img \<and> target_size st = Some (img_size img) \<longrightarrow>
        try_block cd fs filepath st = accumulate img st \<and>
        resize_count (fst (accumulate img st)) = resize_count st"
    using try_block_same_size by blast
  from ref rc k t show ?thesis
    unfolding resized_def by blast
qed

text \<open>The run on \<open>fs_sizes\<close>: the reference size is 2 by 2, \<open>b.png\<close> is 3 by 1 and is the one
  file resampled.\<close>

theorem C8_resize_count_witness:
  "compute_average_image example_codec fs_sizes ''images'' ''out/avg.jpg'' =
     (None,
      fs_sizes\<lparr>nodes := nodes fs_sizes @
        [([''out''], Dir), ([''out'', ''avg.jpg''], File (Inr (flat (2, 2) 23)))]\<rparr>,
      [Found 4, Progress 1 4 ''a.png'', Baseline (2, 2), Progress 2 4 ''b.png'',
       Progress 3 4 ''c.png'', Progress 4 4 ''d.png'', Skip ''d.png'' (CodecError ''truncated''),
       Done, Succeeded 3, Resized 1, OutputSize (Some (2, 2)), Elapsed, SkippedFiles 1,
       SkippedFile ''d.png'' (CodecError ''truncated''),
       SavedTo (Some [''out'', ''avg.jpg''])]) \<and>
   reference_size example_codec fs_sizes ''images'' (sort (file_list_of fs_sizes ''images'')) =
     Some (2, 2) \<and>
   filter (\<lambda>n. needs_resize example_codec fs_sizes ''images'' (2, 2) n \<and>
       succeeds example_codec fs_sizes ''images'' (2, 2) n)
     (sort (file_list_of fs_sizes ''images'')) = [''b.png''] \<and>
   resize_count (main_loop example_codec fs_sizes ''images'' (file_list_of fs_sizes ''images'')) = 1 \<and>
   pil_open_rgb example_codec fs_sizes ''images/c.png'' = Inr (flat (2, 2) 20) \<and>
   target_size ((init 4)\<lparr>target_size := Some (2, 2)\<rparr>) = Some (img_size (flat (2, 2) 20)) \<and>
   try_block example_codec fs_sizes ''images/c.png'' ((init 4)\<lparr>target_size := Some (2, 2)\<rparr>) =
     accumulate (flat (2, 2) 20) ((init 4)\<lparr>target_size := Some (2, 2)\<rparr>)"
proof -
  let ?st = "(init 4)\<lparr>target_size := Some (2, 2)\<rparr>"
  have t: "target_size ?st = Some (img_size (flat (2, 2) 20))"
    by (simp add: flat_def)
  from C8_resize_count [OF sizes_run] obtain ref
    where "reference_size example_codec fs_sizes ''images''
        (sort (file_list_of fs_sizes ''images'')) = Some ref"
      and rc: "resize_count (main_loop example_codec fs_sizes ''images''
          (file_list_of fs_sizes ''images'')) =
        length (filter (\<lambda>n. needs_resize example_codec fs_sizes ''images'' ref n \<and>
            succeeds example_codec fs_sizes ''images'' ref n)
          (sort (file_list_of fs_sizes ''images'')))"
      and tb: "\<forall>st filepath img.
        pil_open_rgb example_codec fs_sizes filepath = Inr img \<and>
        target_size st = Some (img_size img) \<longrightarrow>
        try_block example_codec fs_sizes filepath st = accumulate img st \<and>
        resize_count (fst (accumulate img st)) = resize_count st"
    by blast
  then have ref: "ref = (2, 2)"
    by (simp add: sizes_reference)
  from rc have one: "resize_count (main_loop example_codec fs_sizes ''images''
      (file_list_of fs_sizes ''images'')) = 1"
    unfolding ref sizes_resized by simp
  from tb sizes_open_c t
  have "try_block example_codec fs_sizes ''images/c.png'' ?st = accumulate (flat (2, 2) 20) ?st"
    by blast
  with one t show ?thesis
    using sizes_run sizes_reference sizes_resized sizes_open_c by simp
qed

text \<open>
  C9. The conversion of the averaged array to 8-bit samples drops the fraction: every
  sample written is the integer part (the floor) of the clipped average, with no
  wrap-around. In \<open>fs_tenth\<close> the samples sum to 9 over 10 images; the average 0.9
  gives the sample 0, where rounding to nearest would give 1.
\<close>

theorem C9_truncation:
  "uint (item (average_array s n) i) = \<lfloor>np_clip (item s i / real n) 0 255\<rfloor> \<and>
   sum_array (main_loop example_codec fs_tenth ''images'' (file_list_of fs_tenth ''images'')) =
     Some \<lparr>shape = (1, 1, 3), item = (\<lambda>i. 9)\<rparr> \<and>
   count (main_loop example_codec fs_tenth ''images'' (file_list_of fs_tenth ''images'')) = 10 \<and>
   item (average_array \<lparr>shape = (1, 1, 3), item = (\<lambda>i. 9)\<rparr> 10) (0, 0, 0) = 0 \<and>
   round (9 / 10 :: real) = 1 \<and>
   lookup (fst (snd (compute_average_image example_codec fs_tenth ''images'' ''out/avg.png'')))
     [''out'', ''avg.png''] = Some (File (Inr (flat (1, 1) 0)))"
proof -
  have g: "uint (item (average_array s n) i) = \<lfloor>np_clip (item s i / real n) 0 255\<rfloor>"
    by (simp add: average_array_def uint_astype_clip)
  have a: "item (average_array \<lparr>shape = (1, 1, 3), item = (\<lambda>i. 9)\<rparr> 10) (0, 0, 0) = 0"
    by (simp add: average_array_def astype_uint8_def np_clip_def)
  have r: "round (9 / 10 :: real) = 1"
    by (simp add: round_def)
  have l: "lookup (fst (snd (compute_average_image example_codec fs_tenth ''images''
      ''out/avg.png''))) [''out'', ''avg.png''] = Some (File (Inr (flat (1, 1) 0)))"
    unfolding tenth_run by (simp add: lookup_def fs_tenth_def)
  show ?thesis
    by (intro conjI g a r l tenth_sum tenth_count)
qed

text \<open>
  C10. Whenever the call ends with one of its three fatal errors (the folder is missing,
  no file has a supported extension, no image was loaded), the file system is left as
  it was: no file is written and no directory is created. Conversely, a run that changes
  the file system has passed the check of the success count.
\<close>

theorem C10_no_write_on_fatal:
  assumes "compute_average_image cd fs folder out = (e, fs', printed)"
  shows "((\<exists>m. e = Some (ValueError m)) \<longrightarrow> fs' = fs) \<and>
    (\<not> os_path_isdir fs folder \<or> file_list_of fs folder = [] \<or>
       count (main_loop cd fs folder (file_list_of fs folder)) = 0 \<longrightarrow>
     fs' = fs \<and> (\<exists>m. e = Some (ValueError m))) \<and>
    (fs' \<noteq> fs \<longrightarrow>
       os_path_isdir fs folder \<and> file_list_of fs folder \<noteq> [] \<and>
       0 < count (main_loop cd fs folder (file_list_of fs folder)))"
  using assms
  by (auto simp: run_cases split: if_splits dest: finish_exn)

text \<open>The three fatal cases on \<open>fs_corrupt\<close> (both matched files corrupt, the folder
  missing, no supported file), and the run on \<open>fs_mixed\<close> that writes its output.\<close>

theorem C10_no_write_on_fatal_witness:
  "compute_average_image example_codec fs_corrupt ''./images'' ''out/avg.png'' =
     (Some (ValueError NothingLoaded), fs_corrupt,
      [Found 2, Progress 1 2 ''x.JPG'', Skip ''x.JPG'' (CodecError ''cannot identify''),
       Progress 2 2 ''y.jpg'', Skip ''y.jpg'' (CodecError ''truncated'')]) \<and>
   count (main_loop example_codec fs_corrupt ''./images''
     (file_list_of fs_corrupt ''./images'')) = 0 \<and>
   compute_average_image example_codec fs_corrupt ''images/raw'' ''out/avg.png'' =
     (Some (ValueError (FolderMissing ''images/raw'')), fs_corrupt, []) \<and>
   \<not> os_path_isdir fs_corrupt ''images/raw'' \<and>
   compute_average_image example_codec fs_corrupt ''/home'' ''out/avg.png'' =
     (Some (ValueError NoSupportedFiles), fs_corrupt, []) \<and>
   file_list_of fs_corrupt ''/home'' = [] \<and>
   fst (snd (compute_average_image example_codec fs_mixed ''images'' ''out/avg.png'')) \<noteq>
     fs_mixed \<and>
   os_path_isdir fs_mixed ''images'' \<and>
   0 < count (main_loop example_codec fs_mixed ''images'' (file_list_of fs_mixed ''images''))"
proof -
  have c: "count (main_loop example_codec fs_corrupt ''./images''
     (file_list_of fs_corrupt ''./images'')) = 0"
    by code_simp
  have m: "\<not> os_path_isdir fs_corrupt ''images/raw''"
    by code_simp
  have n: "file_list_of fs_corrupt ''/home'' = []"
    by code_simp
  have d: "fst (snd (compute_average_image example_codec fs_mixed ''images'' ''out/avg.png'')) \<noteq>
     fs_mixed"
    unfolding mixed_run by (simp add: fs_mixed_def)
  from C10_no_write_on_fatal [OF mixed_run] d
  have p: "os_path_isdir fs_mixed ''images'' \<and>
     0 < count (main_loop example_codec fs_mixed ''images'' (file_list_of fs_mixed ''images''))"
    unfolding mixed_run by simp
  show ?thesis
    using C10_no_write_on_fatal [OF corrupt_run] C10_no_write_on_fatal [OF missing_run]
      C10_no_write_on_fatal [OF no_files_run] c m n d p
    by (simp add: corrupt_run missing_run no_files_run)
qed

end
